theory Spec2Isabelle
  imports Main
begin

section \<open>Python values, images and the Selenium driver\<close>

text \<open>
  The exceptions the modelled code can raise. \<open>WebDriverException\<close> stands for any error
  a call of the Selenium driver raises; the other three are Python's own.
\<close>

datatype error = WebDriverException | TypeError | IndexError | ZeroDivisionError

text \<open>
  A Pillow image as far as the code reads it: \<open>img.mode\<close>, \<open>img.size[0]\<close> and
  \<open>img.size[1]\<close> (which is \<open>img.height\<close>).
\<close>

record image =
  im_mode :: string
  im_width :: int
  im_height :: int

text \<open>
  The image \<open>Image.new(mode, size)\<close> builds and \<open>paste\<close> fills: its mode, its size and
  the tiles pasted so far, each with the box \<open>(x, y)\<close> it was pasted at, in paste order.
\<close>

record canvas =
  cv_mode :: string
  cv_size :: "int \<times> int"
  cv_pastes :: "(image \<times> int \<times> int) list"

text \<open>
  PNG bytes, identified with what they encode (PNG is lossless): the bytes the driver
  hands out for one screenshot, or the bytes \<open>screenshot.save(..., format='PNG')\<close> writes
  for a canvas.
\<close>

datatype png_data = Png_screenshot image | Png_canvas canvas

text \<open>The scripts the code sends through \<open>execute_script\<close>, with their arguments.\<close>

datatype script =
    BodyScrollHeight
  | BodyClientHeight
  | BodyOffsetHeight
  | DocOffsetHeight
  | DocClientHeight
  | DocScrollHeight
  | OuterMinusInner
  | OuterHeight
  | InnerHeight
  | ScrollTo int int
  | SetBodyHeight int

datatype call =
    ExecuteScript script
  | SetWindowSize int int
  | GetScreenshotAsPng
  | Sleep nat

text \<open>
  The remote browser session is an oracle: the code is sequential, so a run is fixed by
  what the session answers to the first, second, third ... call. \<open>calls\<close> is the log of
  the calls made so far (oldest first); the call made next has position
  \<open>length calls\<close>, raises when \<open>raises\<close> says so at that position, and otherwise
  answers \<open>number\<close> (a script; the answer may depend on the position and on the
  script) or \<open>png\<close> (a screenshot) at that position. \<open>time.sleep\<close> is logged
  too; it asks the session nothing.
\<close>

record webdriver =
  raises :: "nat \<Rightarrow> bool"
  number :: "nat \<Rightarrow> script \<Rightarrow> int"
  png :: "nat \<Rightarrow> image"
  calls :: "call list"

type_synonym 'a io = "webdriver \<Rightarrow> (error + 'a) \<times> webdriver"

definition io_return :: "'a \<Rightarrow> 'a io" where
  "io_return x wd = (Inr x, wd)"

definition io_raise :: "error \<Rightarrow> 'a io" where
  "io_raise e wd = (Inl e, wd)"

definition io_bind :: "'a io \<Rightarrow> ('a \<Rightarrow> 'b io) \<Rightarrow> 'b io" where
  "io_bind m f wd = (case m wd of (Inl e, wd') \<Rightarrow> (Inl e, wd') | (Inr x, wd') \<Rightarrow> f x wd')"

definition driver_call :: "call \<Rightarrow> (webdriver \<Rightarrow> nat \<Rightarrow> 'a) \<Rightarrow> 'a io" where
  "driver_call c answer wd =
     (let k = length (calls wd); wd' = wd\<lparr>calls := calls wd @ [c]\<rparr>
      in if raises wd k then (Inl WebDriverException, wd') else (Inr (answer wd k), wd'))"

definition execute_script :: "script \<Rightarrow> int io" where
  "execute_script s = driver_call (ExecuteScript s) (\<lambda>wd k. number wd k s)"

definition set_window_size :: "int \<Rightarrow> int \<Rightarrow> unit io" where
  "set_window_size w h = driver_call (SetWindowSize w h) (\<lambda>_ _. ())"

definition get_screenshot_as_png :: "image io" where
  "get_screenshot_as_png = driver_call GetScreenshotAsPng png"

definition sleep :: "nat \<Rightarrow> unit io" where
  "sleep seconds wd = (Inr (), wd\<lparr>calls := calls wd @ [Sleep seconds]\<rparr>)"

text \<open>
  Python binds positional arguments when a function is called: a call that passes a
  number of positional arguments other than the number of parameters (none of which has
  a default here) raises \<open>TypeError\<close> before the body runs.
\<close>

definition call_positional :: "nat \<Rightarrow> nat \<Rightarrow> 'a io \<Rightarrow> 'a io" where
  "call_positional parameters arguments body =
     (if arguments = parameters then body else io_raise TypeError)"

definition lift :: "error + 'a \<Rightarrow> 'a io" where
  "lift r wd = (r, wd)"

text \<open>
  Not modelled: logging (\<open>log.info\<close>, \<open>print\<close>, and so the \<open>debug\<close> flags, which only
  switch logging), failures inside Pillow (the driver's PNG bytes are taken to decode, and
  \<open>Image.new\<close> to accept the size it is given), and a handler without a driver
  (\<open>self.webdriver is None\<close>). \<open>math.floor(a / b)\<close> is the integer quotient
  \<open>a div b\<close>, which rounds down as Python does; the float quotient's floor equals it
  for every height below \<open>2 ^ 53\<close> pixels.
\<close>

section \<open>The tile loop shared by both variants\<close>

text \<open>
  One round of \<open>while ss_count < max_ss_count\<close>: scroll to the offset, wait, capture.
\<close>

definition capture_tile :: "int \<Rightarrow> int \<Rightarrow> nat \<Rightarrow> image io" where
  "capture_tile scroll_x offset screenshot_delay =
     io_bind (execute_script (ScrollTo scroll_x offset)) (\<lambda>_.
     io_bind (sleep screenshot_delay) (\<lambda>_.
     get_screenshot_as_png))"

function tile_loop ::
  "int \<Rightarrow> nat \<Rightarrow> int \<Rightarrow> image list \<Rightarrow> int \<Rightarrow> int \<Rightarrow> (image list \<times> int) io" where
  "tile_loop scroll_x screenshot_delay max_ss_count slices offset ss_count wd =
     (if ss_count < max_ss_count then
        (case capture_tile scroll_x offset screenshot_delay wd of
           (Inl e, wd') \<Rightarrow> (Inl e, wd')
         | (Inr img, wd') \<Rightarrow>
             tile_loop scroll_x screenshot_delay max_ss_count
               (slices @ [img]) (offset + im_height img) (ss_count + 1) wd')
      else (Inr (slices, offset), wd))"
  by pat_completeness auto
termination
  by (relation "measure (\<lambda>(scroll_x, screenshot_delay, max_ss_count, slices, offset, ss_count, wd).
        nat (max_ss_count - ss_count))") auto

declare tile_loop.simps [simp del]

section \<open>ScreenshotHelper and BrowserHandler\<close>

definition ScreenshotHelper_get_combined_screenshot ::
  "image list \<Rightarrow> int list \<Rightarrow> error + png_data" where
  "ScreenshotHelper_get_combined_screenshot slices width =
     (let total_image_height = fold (\<lambda>img total. total + im_height img) slices 0
      in case slices of
           [] \<Rightarrow> Inl IndexError
         | first # _ \<Rightarrow>
             (case width of
                [] \<Rightarrow> Inl IndexError
              | w # _ \<Rightarrow>
                  (let screenshot = \<lparr>cv_mode = im_mode first,
                                     cv_size = (w, total_image_height + 150),
                                     cv_pastes = []\<rparr>;
                       (screenshot, offset) =
                          fold (\<lambda>img (screenshot, offset).
                                  (screenshot\<lparr>cv_pastes := cv_pastes screenshot @ [(img, 0, offset)]\<rparr>,
                                   offset + im_height img))
                               slices (screenshot, 0)
                   in Inr (Png_canvas screenshot))))"

definition ScreenshotHelper_is_valid_screenshot ::
  "(png_data \<Rightarrow> nat) \<Rightarrow> png_data option \<Rightarrow> nat \<Rightarrow> bool" where
  "ScreenshotHelper_is_valid_screenshot getsizeof p_object sz =
     (case p_object of None \<Rightarrow> False | Some b \<Rightarrow> getsizeof b > sz)"

definition BrowserHandler_get_actual_height :: "int io" where
  "BrowserHandler_get_actual_height =
     io_bind (execute_script BodyScrollHeight) (\<lambda>max_body_height.
     io_bind (execute_script DocScrollHeight) (\<lambda>max_document_height.
     io_return (max max_body_height max_document_height)))"

text \<open>
  One round of the loop of \<open>BrowserHandler.get_max_height\<close>, up to the comparison: read,
  scroll to the reading, wait, read again.
\<close>

definition BrowserHandler_get_max_height_round :: "nat \<Rightarrow> (int \<times> int) io" where
  "BrowserHandler_get_max_height_round delay =
     io_bind BrowserHandler_get_actual_height (\<lambda>previous_max_height.
     io_bind (execute_script (ScrollTo 0 previous_max_height)) (\<lambda>_.
     io_bind (sleep delay) (\<lambda>_.
     io_bind BrowserHandler_get_actual_height (\<lambda>new_max_height.
     io_return (previous_max_height, new_max_height)))))"

text \<open>
  \<open>while calculation_count < calculation_times\<close>; the result is \<open>max_height\<close> as it
  stands when the loop is left, by \<open>break\<close> or by the loop condition.
\<close>

function BrowserHandler_get_max_height_loop :: "nat \<Rightarrow> int \<Rightarrow> int \<Rightarrow> int \<Rightarrow> int io" where
  "BrowserHandler_get_max_height_loop delay calculation_times calculation_count max_height wd =
     (if calculation_count < calculation_times then
        (case BrowserHandler_get_max_height_round delay wd of
           (Inl e, wd') \<Rightarrow> (Inl e, wd')
         | (Inr (previous_max_height, new_max_height), wd') \<Rightarrow>
             if new_max_height = previous_max_height then (Inr new_max_height, wd')
             else BrowserHandler_get_max_height_loop delay calculation_times
                    (calculation_count + 1) max_height wd')
      else (Inr max_height, wd))"
  by pat_completeness auto
termination
  by (relation "measure (\<lambda>(delay, calculation_times, calculation_count, max_height, wd).
        nat (calculation_times - calculation_count))") auto

declare BrowserHandler_get_max_height_loop.simps [simp del]

definition BrowserHandler_get_max_height :: "int \<Rightarrow> nat \<Rightarrow> int io" where
  "BrowserHandler_get_max_height df_ht delay =
     io_bind (BrowserHandler_get_max_height_loop delay 5 0 0) (\<lambda>max_height.
     io_return (if max_height = 0 then df_ht else max_height))"

definition BrowserHandler_capture_remaining_section ::
  "image list \<Rightarrow> int \<Rightarrow> int \<Rightarrow> int \<Rightarrow> int \<Rightarrow> nat \<Rightarrow> image option io" where
  "BrowserHandler_capture_remaining_section ss_chunks total_height win_width win_height scroll_x
       screenshot_delay =
     (if win_height = 0 then io_raise ZeroDivisionError
      else
        (let remaining_page_height = total_height mod win_height
         in if remaining_page_height = 0 then io_return None
            else
              io_bind (execute_script (SetBodyHeight (total_height + win_height))) (\<lambda>_.
              (case ss_chunks of
                 [] \<Rightarrow> io_raise IndexError
               | first # _ \<Rightarrow>
                   (let scroll_offset = im_height first * int (length ss_chunks)
                    in io_bind (execute_script OuterMinusInner) (\<lambda>chrome.
                       let new_win_height = remaining_page_height + chrome
                       in io_bind (set_window_size win_width (new_win_height + 3500)) (\<lambda>_.
                          io_bind (sleep screenshot_delay) (\<lambda>_.
                          io_bind (execute_script (ScrollTo scroll_x scroll_offset)) (\<lambda>_.
                          io_bind (sleep screenshot_delay) (\<lambda>_.
                          io_bind get_screenshot_as_png (\<lambda>image.
                          io_return (Some image))))))))))))"

text \<open>
  \<open>get_max_height()\<close> is called with its defaults, \<open>df_ht = 0\<close> and \<open>delay = 5\<close>. The
  last line calls \<open>ScreenshotHelper.get_combined_screenshot(slices, width, offset)\<close>:
  three arguments for a static method of two parameters.
\<close>

definition BrowserHandler_get_screenshot_using_cut_and_merger :: "int \<Rightarrow> nat \<Rightarrow> png_data io" where
  "BrowserHandler_get_screenshot_using_cut_and_merger max_width screenshot_delay =
     (let slices = []; offset = 0; scroll_x = 0; window_height = 15000; ss_count = 0
      in io_bind (BrowserHandler_get_max_height 0 5) (\<lambda>max_height.
         let max_ss_count = max_height div window_height
         in io_bind (execute_script OuterMinusInner) (\<lambda>chrome.
            let new_window_height = window_height + chrome
            in io_bind (set_window_size max_width new_window_height) (\<lambda>_.
               io_bind (tile_loop scroll_x screenshot_delay max_ss_count slices offset ss_count)
                 (\<lambda>(slices, offset).
               io_bind (BrowserHandler_capture_remaining_section slices max_height max_width
                          window_height scroll_x screenshot_delay) (\<lambda>last_image.
               let slices = (case last_image of None \<Rightarrow> slices | Some img \<Rightarrow> slices @ [img]);
                   width = [max_width]
               in call_positional 2 3
                    (lift (ScreenshotHelper_get_combined_screenshot slices width))))))))"

text \<open>
  The \<open>try\<close> block of \<open>BrowserHandler.get_screenshot\<close>. \<open>kwargs\<close> is the handler's
  keyword dictionary; the automation path (\<open>__get_screenshot_using_automation\<close>) is a
  parameter.
\<close>

definition BrowserHandler_get_screenshot_try ::
  "(string \<rightharpoonup> int) \<Rightarrow> (int \<Rightarrow> int \<Rightarrow> int \<Rightarrow> nat \<Rightarrow> png_data io) \<Rightarrow>
   bool \<Rightarrow> int \<Rightarrow> int \<Rightarrow> int \<Rightarrow> int \<Rightarrow> nat \<Rightarrow> png_data io" where
  "BrowserHandler_get_screenshot_try kwargs automation full df_wd df_ht default_height
       maximum_length_image screenshot_delay =
     (let user_wd = df_wd; user_ht = df_ht; cut_merge_threshold = default_height;
          cut_merge_maximum_length_image = maximum_length_image; max_width = user_wd
      in if full then
           io_bind (BrowserHandler_get_max_height user_ht screenshot_delay) (\<lambda>max_height.
           let sc_capture_type = (case kwargs ''sc_capture_type'' of None \<Rightarrow> 1 | Some v \<Rightarrow> v);
               crawl_ss_type = (case kwargs ''crawl_ss_type'' of None \<Rightarrow> sc_capture_type | Some v \<Rightarrow> v)
           in if crawl_ss_type = sc_capture_type then
                if max_height \<le> cut_merge_threshold then
                  io_bind (execute_script OuterMinusInner) (\<lambda>chrome.
                  let window_height = max_height + chrome
                  in io_bind (set_window_size max_width window_height) (\<lambda>_.
                     io_bind (execute_script (ScrollTo max_width max_height)) (\<lambda>_.
                     io_bind (sleep screenshot_delay) (\<lambda>_.
                     io_bind (execute_script (ScrollTo 0 0)) (\<lambda>_.
                     io_bind (sleep screenshot_delay) (\<lambda>_.
                     io_bind get_screenshot_as_png (\<lambda>png_ss.
                     io_return (Png_screenshot png_ss))))))))
                else BrowserHandler_get_screenshot_using_cut_and_merger max_width screenshot_delay
              else automation cut_merge_maximum_length_image max_height max_width screenshot_delay)
         else
           (let max_height = user_ht
            in io_bind (set_window_size max_width max_height) (\<lambda>_.
               io_bind (sleep screenshot_delay) (\<lambda>_.
               io_bind get_screenshot_as_png (\<lambda>png_ss.
               io_return (Png_screenshot png_ss))))))"

text \<open>
  \<open>png_ss\<close> is \<open>None\<close> until the last statement of a branch assigns it, so the handler
  \<open>except Exception: ... return png_ss\<close> returns \<open>None\<close>. \<open>sys.getsizeof\<close> is a
  parameter.
\<close>

definition BrowserHandler_get_screenshot ::
  "(png_data \<Rightarrow> nat) \<Rightarrow> (string \<rightharpoonup> int) \<Rightarrow> (int \<Rightarrow> int \<Rightarrow> int \<Rightarrow> nat \<Rightarrow> png_data io) \<Rightarrow>
   bool \<Rightarrow> int \<Rightarrow> int \<Rightarrow> int \<Rightarrow> int \<Rightarrow> nat \<Rightarrow> png_data option io" where
  "BrowserHandler_get_screenshot getsizeof kwargs automation full df_wd df_ht default_height
       maximum_length_image screenshot_delay wd =
     (case BrowserHandler_get_screenshot_try kwargs automation full df_wd df_ht default_height
             maximum_length_image screenshot_delay wd of
        (Inl e, wd') \<Rightarrow> (Inr None, wd')
      | (Inr png_ss, wd') \<Rightarrow>
          if \<not> ScreenshotHelper_is_valid_screenshot getsizeof (Some png_ss) 1000
          then (Inl TypeError, wd')
          else (Inr (Some png_ss), wd'))"

section \<open>methods.py and main.py\<close>

definition get_page_height :: "int io" where
  "get_page_height =
     io_bind (execute_script BodyScrollHeight) (\<lambda>scroll_height.
     io_bind (execute_script BodyClientHeight) (\<lambda>client_height.
     io_bind (execute_script BodyOffsetHeight) (\<lambda>offset_height.
     io_bind (execute_script DocOffsetHeight) (\<lambda>document_offset_height.
     io_bind (execute_script DocClientHeight) (\<lambda>document_client_height.
     io_bind (execute_script DocScrollHeight) (\<lambda>document_scroll_height.
     io_return (fold max [client_height, offset_height, document_scroll_height,
                          document_client_height, document_offset_height] scroll_height)))))))"

definition get_window_height :: "int \<Rightarrow> int io" where
  "get_window_height viewport =
     io_bind (execute_script OuterMinusInner) (\<lambda>chrome. io_return (viewport + chrome))"

text \<open>
  One round of the loop of \<open>get_max_height\<close>, up to the comparison: read, resize, scroll,
  wait twenty seconds, read again.
\<close>

definition get_max_height_round :: "int \<Rightarrow> (int \<times> int) io" where
  "get_max_height_round max_width =
     io_bind get_page_height (\<lambda>previous_max_height.
     io_bind (set_window_size max_width previous_max_height) (\<lambda>_.
     io_bind (execute_script (ScrollTo 0 previous_max_height)) (\<lambda>_.
     io_bind (sleep 20) (\<lambda>_.
     io_bind get_page_height (\<lambda>new_max_height.
     io_return (previous_max_height, new_max_height))))))"

text \<open>
  \<open>while True\<close> with \<open>break\<close> as its only exit: the loop may run forever, and
  \<open>None\<close> is the run that never returns.
\<close>

partial_function (option) get_max_height ::
  "int \<Rightarrow> webdriver \<Rightarrow> ((error + int) \<times> webdriver) option" where
  "get_max_height max_width wd =
     (case get_max_height_round max_width wd of
        (Inl e, wd') \<Rightarrow> Some (Inl e, wd')
      | (Inr (previous_max_height, new_max_height), wd') \<Rightarrow>
          if previous_max_height = new_max_height then Some (Inr new_max_height, wd')
          else get_max_height max_width wd')"

text \<open>What follows a step that may not return.\<close>

definition io_bind_partial ::
  "(webdriver \<Rightarrow> ((error + 'a) \<times> webdriver) option) \<Rightarrow> ('a \<Rightarrow> 'b io) \<Rightarrow>
   webdriver \<Rightarrow> ((error + 'b) \<times> webdriver) option" where
  "io_bind_partial m f wd =
     (case m wd of
        None \<Rightarrow> None
      | Some (Inl e, wd') \<Rightarrow> Some (Inl e, wd')
      | Some (Inr x, wd') \<Rightarrow> Some (f x wd'))"

text \<open>\<open>except Exception as e: raise e\<close> raises what was caught, so it adds no branch.\<close>

definition get_combined_screenshot :: "image list \<Rightarrow> int list \<Rightarrow> error + png_data" where
  "get_combined_screenshot slices width =
     (let total_height = fold (\<lambda>image total_height. total_height + im_height image) slices 0
      in case slices of
           [] \<Rightarrow> Inl IndexError
         | first # _ \<Rightarrow>
             (case width of
                [] \<Rightarrow> Inl IndexError
              | w # _ \<Rightarrow>
                  (let screenshot = \<lparr>cv_mode = im_mode first,
                                     cv_size = (w, total_height + 150),
                                     cv_pastes = []\<rparr>;
                       (screenshot, offset) =
                          fold (\<lambda>img (screenshot, offset).
                                  (screenshot\<lparr>cv_pastes := cv_pastes screenshot @ [(img, 0, offset)]\<rparr>,
                                   offset + im_height img))
                               slices (screenshot, 0)
                   in Inr (Png_canvas screenshot))))"

definition capture_remaining_page ::
  "image list \<Rightarrow> int \<Rightarrow> int \<Rightarrow> int \<Rightarrow> int \<Rightarrow> nat \<Rightarrow> image option io" where
  "capture_remaining_page ss_chunks total_height win_width viewport scroll_x screenshot_delay =
     (if viewport = 0 then io_raise ZeroDivisionError
      else
        (let remaining_page_height = total_height mod viewport
         in if remaining_page_height = 0 then io_return None
            else
              io_bind (execute_script (SetBodyHeight total_height)) (\<lambda>_.
              (case ss_chunks of
                 [] \<Rightarrow> io_raise IndexError
               | first # _ \<Rightarrow>
                   (let scroll_offset = im_height first * int (length ss_chunks)
                    in io_bind (get_window_height remaining_page_height) (\<lambda>new_win_height.
                       io_bind (set_window_size win_width new_win_height) (\<lambda>_.
                       io_bind (sleep screenshot_delay) (\<lambda>_.
                       io_bind (execute_script (ScrollTo scroll_x scroll_offset)) (\<lambda>_.
                       io_bind (sleep screenshot_delay) (\<lambda>_.
                       io_bind get_screenshot_as_png (\<lambda>image.
                       io_return (Some image))))))))))))"

text \<open>
  The parameter \<open>win_height=15000\<close> is never read. The \<open>print\<close> after the first
  resize runs the script \<open>return window.outerHeight\<close> inside its f-string.
\<close>

definition get_screenshot_using_cut_and_merger ::
  "int \<Rightarrow> nat \<Rightarrow> webdriver \<Rightarrow> ((error + png_data) \<times> webdriver) option" where
  "get_screenshot_using_cut_and_merger win_width screenshot_delay =
     (let ss_chunks = []; offset = 0; scroll_x = 0; window_width = win_width
      in io_bind_partial (get_max_height window_width) (\<lambda>max_height.
         io_bind (set_window_size win_width max_height) (\<lambda>_.
         io_bind (execute_script OuterHeight) (\<lambda>_.
         io_bind (sleep screenshot_delay) (\<lambda>_.
         io_bind (execute_script InnerHeight) (\<lambda>viewport.
         if viewport = 0 then io_raise ZeroDivisionError
         else
           (let max_ss_count = max_height div viewport; total_ss_count = 0
            in io_bind (tile_loop scroll_x screenshot_delay max_ss_count ss_chunks offset
                          total_ss_count) (\<lambda>(ss_chunks, offset).
               io_bind (capture_remaining_page ss_chunks max_height window_width viewport scroll_x
                          screenshot_delay) (\<lambda>last_image.
               let ss_chunks = (case last_image of None \<Rightarrow> ss_chunks
                                | Some img \<Rightarrow> ss_chunks @ [img]);
                   width = [window_width]
               in lift (get_combined_screenshot ss_chunks width))))))))))"

text \<open>
  The \<open>try\<close> block of \<open>get_screenshot\<close> in main.py. Its first step in the full-page
  branch is \<open>get_max_height\<close>, which may not return.
\<close>

definition get_screenshot_try ::
  "bool \<Rightarrow> int \<Rightarrow> int \<Rightarrow> int \<Rightarrow> nat \<Rightarrow> webdriver \<Rightarrow> ((error + png_data) \<times> webdriver) option" where
  "get_screenshot_try full df_wd df_ht default_height screenshot_delay wd =
     (let user_wd = df_wd; user_ht = df_ht; cut_merge_threshold = default_height;
          max_width = user_wd
      in if full then
           (case get_max_height max_width wd of
              None \<Rightarrow> None
            | Some (Inl e, wd') \<Rightarrow> Some (Inl e, wd')
            | Some (Inr max_height, wd') \<Rightarrow>
                if max_height \<le> cut_merge_threshold then
                  Some ((io_bind (get_window_height max_height) (\<lambda>new_window_height.
                         io_bind (set_window_size max_width new_window_height) (\<lambda>_.
                         io_bind (sleep screenshot_delay) (\<lambda>_.
                         io_bind (execute_script (ScrollTo max_width max_height)) (\<lambda>_.
                         io_bind (sleep screenshot_delay) (\<lambda>_.
                         io_bind (execute_script (ScrollTo 0 0)) (\<lambda>_.
                         io_bind (sleep screenshot_delay) (\<lambda>_.
                         io_bind get_screenshot_as_png (\<lambda>png_ss.
                         io_return (Png_screenshot png_ss)))))))))) wd')
                else get_screenshot_using_cut_and_merger user_wd screenshot_delay wd')
         else
           (let max_height = user_ht
            in Some ((io_bind (set_window_size max_width max_height) (\<lambda>_.
                      io_bind (sleep screenshot_delay) (\<lambda>_.
                      io_bind get_screenshot_as_png (\<lambda>png_ss.
                      io_return (Png_screenshot png_ss))))) wd)))"

text \<open>
  \<open>png_ss\<close> is \<open>None\<close> until the last statement of a branch assigns it, so
  \<open>except Exception: ... return png_ss\<close> returns \<open>None\<close>.
\<close>

definition get_screenshot ::
  "bool \<Rightarrow> int \<Rightarrow> int \<Rightarrow> int \<Rightarrow> nat \<Rightarrow> webdriver \<Rightarrow> ((error + png_data option) \<times> webdriver) option"
  where
  "get_screenshot full df_wd df_ht default_height screenshot_delay wd =
     (case get_screenshot_try full df_wd df_ht default_height screenshot_delay wd of
        None \<Rightarrow> None
      | Some (Inl e, wd') \<Rightarrow> Some (Inr None, wd')
      | Some (Inr png_ss, wd') \<Rightarrow> Some (Inr (Some png_ss), wd'))"

section \<open>Observing a run, and inputs to run the code on\<close>

text \<open>The calls a run has added to the log.\<close>

definition new_calls :: "webdriver \<Rightarrow> webdriver \<Rightarrow> call list" where
  "new_calls wd wd' = drop (length (calls wd)) (calls wd')"

fun forces_body_height :: "call \<Rightarrow> bool" where
  "forces_body_height (ExecuteScript (SetBodyHeight h)) = True"
| "forces_body_height c = False"

text \<open>The window sizes a run has asked for, in order.\<close>

fun resizes :: "call list \<Rightarrow> (int \<times> int) list" where
  "resizes [] = []"
| "resizes (SetWindowSize w h # cs) = (w, h) # resizes cs"
| "resizes (c # cs) = resizes cs"

definition captures :: "call list \<Rightarrow> nat" where
  "captures cs = length (filter (\<lambda>c. c = GetScreenshotAsPng) cs)"

text \<open>
  Only the remainder step forces the body height, and it does so before it captures:
  the captures logged before the first such script are the primary ones.
\<close>

definition primary_captures :: "call list \<Rightarrow> nat" where
  "primary_captures cs = captures (takeWhile (\<lambda>c. \<not> forces_body_height c) cs)"

definition remainder_captures :: "call list \<Rightarrow> nat" where
  "remainder_captures cs = captures (dropWhile (\<lambda>c. \<not> forces_body_height c) cs)"

text \<open>
  What the log says about failures. A run's new calls \<open>cs\<close>, made from position \<open>k\<close>
  on, all succeeded (\<open>succeed\<close>), or the last of them raised and the ones before it
  succeeded (\<open>failed\<close>). \<open>traced_at\<close> ties this to the result of a run started in
  \<open>wd\<close>: only the log has changed, and the run has ended with a driver error exactly
  when its last call raised.
\<close>

fun is_sleep :: "call \<Rightarrow> bool" where
  "is_sleep (Sleep d) = True"
| "is_sleep c = False"

fun succeed :: "(nat \<Rightarrow> bool) \<Rightarrow> nat \<Rightarrow> call list \<Rightarrow> bool" where
  "succeed R k [] = True"
| "succeed R k (c # cs) = ((is_sleep c \<or> \<not> R k) \<and> succeed R (Suc k) cs)"

definition failed :: "(nat \<Rightarrow> bool) \<Rightarrow> nat \<Rightarrow> call list \<Rightarrow> bool" where
  "failed R k cs = (\<exists>ok c. cs = ok @ [c] \<and> succeed R k ok \<and> R (k + length ok) \<and> \<not> is_sleep c)"

definition outcome :: "(nat \<Rightarrow> bool) \<Rightarrow> nat \<Rightarrow> call list \<Rightarrow> error + 'a \<Rightarrow> bool" where
  "outcome R k cs r = (if r = Inl WebDriverException then failed R k cs else succeed R k cs)"

definition traced_at :: "webdriver \<Rightarrow> (error + 'a) \<times> webdriver \<Rightarrow> bool" where
  "traced_at wd res = (\<exists>cs. snd res = wd\<lparr>calls := calls wd @ cs\<rparr>
                          \<and> outcome (raises wd) (length (calls wd)) cs (fst res))"

definition traced :: "'a io \<Rightarrow> bool" where
  "traced m = (\<forall>wd. traced_at wd (m wd))"

definition tile :: "int \<Rightarrow> image" where
  "tile h = \<lparr>im_mode = ''RGBA'', im_width = 800, im_height = h\<rparr>"

text \<open>
  A session that never fails, on a page that reports the same height to every reading
  script: the window's frame is 85 pixels high, \<open>window.innerHeight\<close> is \<open>viewport\<close>
  and every screenshot is \<open>px\<close> pixels high.
\<close>

definition static_page :: "int \<Rightarrow> int \<Rightarrow> int \<Rightarrow> webdriver" where
  "static_page page_height viewport px =
     \<lparr>raises = (\<lambda>k. False),
      number = (\<lambda>k s. if s = OuterMinusInner then 85
                      else if s = InnerHeight then viewport
                      else if s = OuterHeight then viewport + 85
                      else page_height),
      png = (\<lambda>k. tile px),
      calls = []\<rparr>"

text \<open>
  A session that never fails, on a page that keeps growing (an endless feed): each reading
  is a thousand pixels more than the one before.
\<close>

definition growing_page :: webdriver where
  "growing_page =
     \<lparr>raises = (\<lambda>k. False),
      number = (\<lambda>k s. if s = OuterMinusInner then 85 else 1000 * (int k + 1)),
      png = (\<lambda>k. tile 900),
      calls = []\<rparr>"

text \<open>The same session, except that its call at position \<open>k\<close> raises.\<close>

definition failing_at :: "nat \<Rightarrow> webdriver \<Rightarrow> webdriver" where
  "failing_at k wd = wd\<lparr>raises := (\<lambda>i. i = k)\<rparr>"

text \<open>Stand-ins for the two parameters of \<open>BrowserHandler.get_screenshot\<close>.\<close>

definition no_automation :: "int \<Rightarrow> int \<Rightarrow> int \<Rightarrow> nat \<Rightarrow> png_data io" where
  "no_automation maximum_length_image max_height max_width screenshot_delay = io_raise TypeError"

definition two_kilobytes :: "png_data \<Rightarrow> nat" where
  "two_kilobytes b = 2048"

text \<open>
  A page 200 pixels high, captured in full with the threshold \<open>default_height = 100\<close>.
\<close>

definition short_page_capture :: "(error + png_data option) \<times> webdriver" where
  "short_page_capture =
     BrowserHandler_get_screenshot two_kilobytes Map.empty no_automation True 980 1000 100 600000 5
       (static_page 200 15000 15000)"

text \<open>
  The tiled path on a page 31000 pixels high, where the driver's call at position 20
  raises: that call is the screenshot of the remainder step.
\<close>

definition late_failure_run :: "(error + png_data) \<times> webdriver" where
  "late_failure_run =
     BrowserHandler_get_screenshot_using_cut_and_merger 980 5
       (failing_at 20 (static_page 31000 15000 15000))"

text \<open>
  main.py's \<open>get_screenshot\<close> on a page 31000 pixels high with a viewport of 15000, where
  the driver's call at position 39 raises: that call is the second screenshot of the tile
  loop.
\<close>

definition interrupted_capture :: "((error + png_data option) \<times> webdriver) option" where
  "interrupted_capture =
     get_screenshot True 1366 900 15000 20 (failing_at 39 (static_page 31000 15000 15000))"

text \<open>
  The tiled path of BrowserHandler on a page 31000 pixels high whose screenshots come out
  14990 pixels high, ten less than the viewport asked for.
\<close>

definition drifting_run :: "(error + png_data) \<times> webdriver" where
  "drifting_run =
     BrowserHandler_get_screenshot_using_cut_and_merger 980 5 (static_page 31000 15000 14990)"

text \<open>
  The tiled path of methods.py on a page of the given height, in a browser whose viewport
  is the window's height less the 85 pixels of its frame.
\<close>

definition tall_page_run :: "int \<Rightarrow> ((error + png_data) \<times> webdriver) option" where
  "tall_page_run page_height =
     get_screenshot_using_cut_and_merger 1366 20
       (static_page page_height (page_height - 85) (page_height - 85))"

text \<open>
  A page 9000 pixels high, below both thresholds, captured in full through
  \<open>BrowserHandler.get_screenshot\<close> where the driver's call at position 6 raises: that
  call is the chrome-offset script that follows the six calls of the height probe.
\<close>

definition failed_offset_capture :: "(error + png_data option) \<times> webdriver" where
  "failed_offset_capture =
     BrowserHandler_get_screenshot two_kilobytes Map.empty no_automation True 980 1000 22000
       600000 5 (failing_at 6 (static_page 9000 900 900))"

text \<open>
  The same page captured in full through main.py's \<open>get_screenshot\<close> where the driver's
  call at position 16 raises: that call is the \<open>set_window_size\<close> that follows the
  fifteen calls of the height probe and the chrome-offset script.
\<close>

definition failed_resize_capture :: "((error + png_data option) \<times> webdriver) option" where
  "failed_resize_capture =
     get_screenshot True 1366 900 15000 20 (failing_at 16 (static_page 9000 900 900))"

text \<open>
  A session that never fails and whose page shrinks: the height scripts answer 31000 in
  the first six calls, which are the height probe of \<open>BrowserHandler.get_screenshot\<close>, and
  200 from then on.
\<close>

definition shrinking_page :: webdriver where
  "shrinking_page =
     \<lparr>raises = (\<lambda>k. False),
      number = (\<lambda>k s. if s = OuterMinusInner then 85 else if k < 6 then 31000 else 200),
      png = (\<lambda>k. tile 15000),
      calls = []\<rparr>"

text \<open>That page captured in full with the default threshold 22000.\<close>

definition shrinking_page_capture :: "(error + png_data option) \<times> webdriver" where
  "shrinking_page_capture =
     BrowserHandler_get_screenshot two_kilobytes Map.empty no_automation True 980 1000 22000
       600000 5 shrinking_page"

section \<open>Runs on a session that never fails\<close>

lemma calls_update_eq [simp]: "(wd\<lparr>calls := a\<rparr> = wd\<lparr>calls := b\<rparr>) \<longleftrightarrow> a = b"
proof
  assume "wd\<lparr>calls := a\<rparr> = wd\<lparr>calls := b\<rparr>"
  then have "calls (wd\<lparr>calls := a\<rparr>) = calls (wd\<lparr>calls := b\<rparr>)" by (rule arg_cong)
  then show "a = b" by simp
qed simp

lemma calls_update_self [simp]: "(wd = wd\<lparr>calls := a\<rparr>) \<longleftrightarrow> calls wd = a"
proof
  assume "wd = wd\<lparr>calls := a\<rparr>"
  then have "calls wd = calls (wd\<lparr>calls := a\<rparr>)" by (rule arg_cong)
  then show "calls wd = a" by simp
qed auto

lemma new_calls_append [simp]: "new_calls wd (wd\<lparr>calls := calls wd @ cs\<rparr>) = cs"
  by (simp add: new_calls_def)

lemma captures_append [simp]: "captures (xs @ ys) = captures xs + captures ys"
  by (simp add: captures_def)

lemma resizes_append [simp]: "resizes (xs @ ys) = resizes xs @ resizes ys"
  by (induction xs rule: resizes.induct) auto

lemma primary_captures_split:
  "\<forall>c \<in> set xs. \<not> forces_body_height c \<Longrightarrow> ys = [] \<or> forces_body_height (hd ys) \<Longrightarrow>
   primary_captures (xs @ ys) = captures xs"
  by (cases ys) (auto simp: primary_captures_def takeWhile_append2 takeWhile_eq_all_conv [THEN iffD2])

lemma remainder_captures_split:
  "\<forall>c \<in> set xs. \<not> forces_body_height c \<Longrightarrow> ys = [] \<or> forces_body_height (hd ys) \<Longrightarrow>
   remainder_captures (xs @ ys) = captures ys"
  by (cases ys) (auto simp: remainder_captures_def dropWhile_append2 dropWhile_eq_Nil_conv [THEN iffD2])

lemma driver_call_reliable:
  "\<forall>k. \<not> raises wd k \<Longrightarrow>
   driver_call c answer wd = (Inr (answer wd (length (calls wd))), wd\<lparr>calls := calls wd @ [c]\<rparr>)"
  by (simp add: driver_call_def Let_def)

lemmas reliable_simps =
  io_bind_def io_return_def io_raise_def lift_def sleep_def
  execute_script_def set_window_size_def get_screenshot_as_png_def driver_call_reliable

lemmas run_defs =
  io_bind_def io_return_def io_raise_def lift_def sleep_def call_positional_def
  execute_script_def set_window_size_def get_screenshot_as_png_def driver_call_def

lemma BrowserHandler_get_max_height_round_reliable:
  assumes "\<forall>k. \<not> raises wd k"
  shows "\<exists>p n cs. BrowserHandler_get_max_height_round delay wd
                    = (Inr (p, n), wd\<lparr>calls := calls wd @ cs\<rparr>)
           \<and> length cs = 6 \<and> captures cs = 0 \<and> (\<forall>c \<in> set cs. \<not> forces_body_height c)
           \<and> resizes cs = []"
  using assms
  by (simp add: BrowserHandler_get_max_height_round_def BrowserHandler_get_actual_height_def
        reliable_simps captures_def)

lemma BrowserHandler_get_max_height_loop_reliable:
  assumes "\<forall>k. \<not> raises wd k"
  shows "\<exists>h cs. BrowserHandler_get_max_height_loop delay bound count0 m wd
                  = (Inr h, wd\<lparr>calls := calls wd @ cs\<rparr>)
           \<and> captures cs = 0 \<and> (\<forall>c \<in> set cs. \<not> forces_body_height c)
           \<and> resizes cs = []"
  using assms
proof (induction delay bound count0 m wd rule: BrowserHandler_get_max_height_loop.induct)
  case (1 delay bound count0 m wd)
  show ?case
  proof (cases "count0 < bound")
    case False
    then show ?thesis
      by (subst BrowserHandler_get_max_height_loop.simps) (simp add: captures_def)
  next
    case True
    from BrowserHandler_get_max_height_round_reliable [OF "1.prems", of delay]
    obtain p n cs where r: "BrowserHandler_get_max_height_round delay wd
        = (Inr (p, n), wd\<lparr>calls := calls wd @ cs\<rparr>)"
      and cs: "captures cs = 0" "\<forall>c \<in> set cs. \<not> forces_body_height c" "resizes cs = []"
      by blast
    show ?thesis
    proof (cases "n = p")
      case True
      with \<open>count0 < bound\<close> r cs show ?thesis
        by (subst BrowserHandler_get_max_height_loop.simps) auto
    next
      case False
      have rel: "\<forall>k. \<not> raises (wd\<lparr>calls := calls wd @ cs\<rparr>) k"
        using "1.prems" by simp
      from "1.IH" [OF \<open>count0 < bound\<close> r [symmetric] refl refl False rel]
      obtain h cs' where
        l: "BrowserHandler_get_max_height_loop delay bound (count0 + 1) m
              (wd\<lparr>calls := calls wd @ cs\<rparr>)
              = (Inr h, wd\<lparr>calls := calls wd @ cs\<rparr>
                          \<lparr>calls := calls (wd\<lparr>calls := calls wd @ cs\<rparr>) @ cs'\<rparr>)"
        and cs': "captures cs' = 0" "\<forall>c \<in> set cs'. \<not> forces_body_height c"
          "resizes cs' = []"
        by blast
      have "BrowserHandler_get_max_height_loop delay bound count0 m wd
              = (Inr h, wd\<lparr>calls := calls wd @ (cs @ cs')\<rparr>)"
        using \<open>count0 < bound\<close> r False l
        by (subst BrowserHandler_get_max_height_loop.simps) simp
      moreover have "captures (cs @ cs') = 0" using cs cs' by simp
      moreover have "\<forall>c \<in> set (cs @ cs'). \<not> forces_body_height c" using cs cs' by auto
      moreover have "resizes (cs @ cs') = []" using cs cs' by simp
      ultimately show ?thesis by blast
    qed
  qed
qed

lemma BrowserHandler_get_max_height_reliable:
  assumes "\<forall>k. \<not> raises wd k"
  shows "\<exists>h cs. BrowserHandler_get_max_height df_ht delay wd
                  = (Inr h, wd\<lparr>calls := calls wd @ cs\<rparr>)
           \<and> captures cs = 0 \<and> (\<forall>c \<in> set cs. \<not> forces_body_height c)
           \<and> resizes cs = []"
proof -
  from BrowserHandler_get_max_height_loop_reliable [OF assms, of delay 5 0 0]
  obtain h cs where "BrowserHandler_get_max_height_loop delay 5 0 0 wd
                  = (Inr h, wd\<lparr>calls := calls wd @ cs\<rparr>)"
           "captures cs = 0" "\<forall>c \<in> set cs. \<not> forces_body_height c" "resizes cs = []"
    by blast
  then show ?thesis
    by (simp add: BrowserHandler_get_max_height_def io_bind_def io_return_def)
qed

lemma capture_tile_reliable:
  "\<forall>k. \<not> raises wd k \<Longrightarrow>
   capture_tile scroll_x offset d wd =
     (Inr (png wd (length (calls wd) + 2)),
      wd\<lparr>calls := calls wd @
            [ExecuteScript (ScrollTo scroll_x offset), Sleep d, GetScreenshotAsPng]\<rparr>)"
  by (simp add: capture_tile_def reliable_simps)

lemma tile_loop_reliable:
  assumes "\<forall>k. \<not> raises wd k"
  shows "\<exists>slices' offset' cs.
           tile_loop scroll_x d n slices offset c wd
             = (Inr (slices', offset'), wd\<lparr>calls := calls wd @ cs\<rparr>)
           \<and> length slices' = length slices + nat (n - c)
           \<and> captures cs = nat (n - c)
           \<and> (\<forall>x \<in> set cs. \<not> forces_body_height x)"
  using assms
proof (induction scroll_x d n slices offset c wd rule: tile_loop.induct)
  case (1 scroll_x d n slices offset c wd)
  show ?case
  proof (cases "c < n")
    case False
    then show ?thesis
      by (subst tile_loop.simps) (simp add: captures_def)
  next
    case True
    define cs where
      "cs = [ExecuteScript (ScrollTo scroll_x offset), Sleep d, GetScreenshotAsPng]"
    define img where "img = png wd (length (calls wd) + 2)"
    define wd2 where "wd2 = wd\<lparr>calls := calls wd @ cs\<rparr>"
    have t: "capture_tile scroll_x offset d wd = (Inr img, wd2)"
      unfolding img_def wd2_def cs_def using "1.prems" by (rule capture_tile_reliable)
    have rel: "\<forall>k. \<not> raises wd2 k"
      using "1.prems" by (simp add: wd2_def)
    from "1.IH" [OF True t [symmetric] refl rel]
    obtain slices' offset' cs' where
      l: "tile_loop scroll_x d n (slices @ [img]) (offset + im_height img) (c + 1) wd2
            = (Inr (slices', offset'), wd2\<lparr>calls := calls wd2 @ cs'\<rparr>)"
      and len: "length slices' = length (slices @ [img]) + nat (n - (c + 1))"
      and cap: "captures cs' = nat (n - (c + 1))"
      and nf: "\<forall>x \<in> set cs'. \<not> forces_body_height x"
      by blast
    have "tile_loop scroll_x d n slices offset c wd
            = (Inr (slices', offset'), wd\<lparr>calls := calls wd @ (cs @ cs')\<rparr>)"
      using True t l by (subst tile_loop.simps) (simp add: wd2_def)
    moreover have "length slices' = length slices + nat (n - c)"
      using len True by simp
    moreover have "captures (cs @ cs') = nat (n - c)"
      using cap True by (simp add: cs_def captures_def)
    moreover have "\<forall>x \<in> set (cs @ cs'). \<not> forces_body_height x"
      using nf by (simp add: cs_def)
    ultimately show ?thesis by blast
  qed
qed

lemma case_list_nonempty:
  "xs \<noteq> [] \<Longrightarrow> (case xs of [] \<Rightarrow> a | y # ys \<Rightarrow> f y ys) = f (hd xs) (tl xs)"
  by (cases xs) auto

lemma BrowserHandler_capture_remaining_section_reliable:
  assumes "\<forall>k. \<not> raises wd k" "ss_chunks \<noteq> []" "win_height \<noteq> 0"
    "total_height mod win_height \<noteq> 0"
  shows "BrowserHandler_capture_remaining_section ss_chunks total_height win_width win_height
           scroll_x d wd =
         (Inr (Some (png wd (length (calls wd) + 6))),
          wd\<lparr>calls := calls wd @
            [ExecuteScript (SetBodyHeight (total_height + win_height)),
             ExecuteScript OuterMinusInner,
             SetWindowSize win_width
               (total_height mod win_height
                  + number wd (length (calls wd) + 1) OuterMinusInner + 3500),
             Sleep d,
             ExecuteScript (ScrollTo scroll_x (im_height (hd ss_chunks) * int (length ss_chunks))),
             Sleep d,
             GetScreenshotAsPng]\<rparr>)"
  using assms
  by (simp add: BrowserHandler_capture_remaining_section_def reliable_simps case_list_nonempty
        eval_nat_numeral Let_def)

lemma BrowserHandler_capture_remaining_section_none:
  assumes "win_height \<noteq> 0" "total_height mod win_height = 0"
  shows "BrowserHandler_capture_remaining_section ss_chunks total_height win_width win_height
           scroll_x d wd = (Inr None, wd)"
  using assms
  by (simp add: BrowserHandler_capture_remaining_section_def io_return_def)

lemma BrowserHandler_tiled_run:
  assumes rel: "\<forall>k. \<not> raises wd k"
    and h: "BrowserHandler_get_max_height 0 5 wd = (Inr h, wd1)"
    and reach: "h mod 15000 = 0 \<or> 15000 \<le> h"
  shows "\<exists>G L R.
           BrowserHandler_get_screenshot_using_cut_and_merger w d wd
             = (Inl TypeError,
                wd\<lparr>calls := calls wd @ G
                       @ [ExecuteScript OuterMinusInner,
                          SetWindowSize w (15000 + number wd (length (calls wd1)) OuterMinusInner)]
                       @ L @ R\<rparr>)
           \<and> wd1 = wd\<lparr>calls := calls wd @ G\<rparr>
           \<and> captures G = 0 \<and> (\<forall>c \<in> set G. \<not> forces_body_height c) \<and> resizes G = []
           \<and> captures L = nat (h div 15000) \<and> (\<forall>c \<in> set L. \<not> forces_body_height c)
           \<and> (if h mod 15000 = 0 then R = []
               else \<exists>rest. R = ExecuteScript (SetBodyHeight (h + 15000)) # rest
                           \<and> captures rest = 1)"
proof -
  from BrowserHandler_get_max_height_reliable [OF rel, of 0 5] h
  obtain G where wd1: "wd1 = wd\<lparr>calls := calls wd @ G\<rparr>"
    and G: "captures G = 0" "\<forall>c \<in> set G. \<not> forces_body_height c" "resizes G = []"
    by auto
  define chrome where "chrome = number wd (length (calls wd1)) OuterMinusInner"
  define P where "P = [ExecuteScript OuterMinusInner, SetWindowSize w (15000 + chrome)]"
  define wd3 where "wd3 = wd1\<lparr>calls := calls wd1 @ P\<rparr>"
  have rel1: "\<forall>k. \<not> raises wd1 k" using rel wd1 by simp
  have rel3: "\<forall>k. \<not> raises wd3 k" using rel1 wd3_def by simp
  from tile_loop_reliable [OF rel3, of 0 d "h div 15000" "[]" 0 0]
  obtain slices' offset' L where
    l: "tile_loop 0 d (h div 15000) [] 0 0 wd3
          = (Inr (slices', offset'), wd3\<lparr>calls := calls wd3 @ L\<rparr>)"
    and len: "length slices' = nat (h div 15000)"
    and L: "captures L = nat (h div 15000)" "\<forall>x \<in> set L. \<not> forces_body_height x"
    by auto
  define wd4 where "wd4 = wd3\<lparr>calls := calls wd3 @ L\<rparr>"
  have rel4: "\<forall>k. \<not> raises wd4 k" using rel3 wd4_def by simp
  have prologue: "io_bind (execute_script OuterMinusInner) (\<lambda>chrome.
                 io_bind (set_window_size w (15000 + chrome)) f) wd1 = f () wd3"
    for f :: "unit \<Rightarrow> png_data io"
    using rel1 by (simp add: reliable_simps wd3_def chrome_def P_def wd1)
  have wd4: "wd4\<lparr>calls := calls wd4 @ R\<rparr> = wd\<lparr>calls := calls wd @ G @ P @ L @ R\<rparr>" for R
    by (simp add: wd4_def wd3_def wd1)
  show ?thesis
  proof (cases "h mod 15000 = 0")
    case True
    have "BrowserHandler_get_screenshot_using_cut_and_merger w d wd = (Inl TypeError, wd4)"
      unfolding BrowserHandler_get_screenshot_using_cut_and_merger_def Let_def
      apply (subst io_bind_def)
      apply (simp only: h prod.case sum.case)
      apply (subst prologue)
      apply (simp add: io_bind_def l wd4_def [symmetric] True
              BrowserHandler_capture_remaining_section_none call_positional_def io_raise_def)
      done
    then have "BrowserHandler_get_screenshot_using_cut_and_merger w d wd
                 = (Inl TypeError, wd\<lparr>calls := calls wd @ G @ P @ L @ []\<rparr>)"
      using wd4 [of "[]"] by simp
    then have run: "BrowserHandler_get_screenshot_using_cut_and_merger w d wd
                 = (Inl TypeError, wd\<lparr>calls := calls wd @ G @ P @ L @ []\<rparr>)" .
    have Rp: "if h mod 15000 = 0 then ([]::call list) = []
               else \<exists>rest. ([]::call list) = ExecuteScript (SetBodyHeight (h + 15000)) # rest
                           \<and> captures rest = 1"
      using True by simp
    show ?thesis using run wd1 G L Rp unfolding P_def chrome_def by blast
  next
    case False
    with reach have "15000 \<le> h" by simp
    then have ne: "slices' \<noteq> []" using len by auto
    define R where "R = [ExecuteScript (SetBodyHeight (h + 15000)),
             ExecuteScript OuterMinusInner,
             SetWindowSize w (h mod 15000
                                + number wd4 (length (calls wd4) + 1) OuterMinusInner + 3500),
             Sleep d,
             ExecuteScript (ScrollTo 0 (im_height (hd slices') * int (length slices'))),
             Sleep d,
             GetScreenshotAsPng]"
    have rem: "BrowserHandler_capture_remaining_section slices' h w 15000 0 d wd4
        = (Inr (Some (png wd4 (length (calls wd4) + 6))), wd4\<lparr>calls := calls wd4 @ R\<rparr>)"
      using BrowserHandler_capture_remaining_section_reliable [OF rel4 ne _ False, of w 0 d]
      by (simp add: R_def)
    have "BrowserHandler_get_screenshot_using_cut_and_merger w d wd
            = (Inl TypeError, wd4\<lparr>calls := calls wd4 @ R\<rparr>)"
      unfolding BrowserHandler_get_screenshot_using_cut_and_merger_def Let_def
      apply (subst io_bind_def)
      apply (simp only: h prod.case sum.case)
      apply (subst prologue)
      apply (simp add: io_bind_def l wd4_def [symmetric] rem call_positional_def io_raise_def)
      done
    then have run: "BrowserHandler_get_screenshot_using_cut_and_merger w d wd
            = (Inl TypeError, wd\<lparr>calls := calls wd @ G @ P @ L @ R\<rparr>)"
      using wd4 [of R] by simp
    have "\<exists>rest. R = ExecuteScript (SetBodyHeight (h + 15000)) # rest \<and> captures rest = 1"
      by (simp add: R_def captures_def)
    then have Rp: "if h mod 15000 = 0 then R = []
               else \<exists>rest. R = ExecuteScript (SetBodyHeight (h + 15000)) # rest
                           \<and> captures rest = 1"
      using False by simp
    show ?thesis using run wd1 G L Rp unfolding P_def chrome_def by blast
  qed
qed

section \<open>The compositor\<close>

lemma fold_total_height:
  "fold (\<lambda>img total. total + im_height img) slices a = a + sum_list (map im_height slices)"
  by (induction slices arbitrary: a) auto

lemma fold_paste:
  "fold (\<lambda>img (screenshot, offset).
           (screenshot\<lparr>cv_pastes := cv_pastes screenshot @ [(img, 0, offset)]\<rparr>,
            offset + im_height img)) slices (cv, off) =
   (cv\<lparr>cv_pastes := cv_pastes cv @
        map (\<lambda>i. (slices ! i, 0, off + sum_list (map im_height (take i slices))))
          [0..<length slices]\<rparr>,
    off + sum_list (map im_height slices))"
proof (induction slices arbitrary: cv off)
  case Nil
  then show ?case by simp
next
  case (Cons x xs)
  have upt: "[0..<Suc (length xs)] = 0 # map Suc [0..<length xs]"
    by (simp add: upt_conv_Cons map_Suc_upt del: upt_Suc)
  show ?case
    by (simp add: Cons.IH upt add.assoc comp_def del: upt_Suc)
qed

lemma get_combined_screenshot_nonempty:
  "slices \<noteq> [] \<Longrightarrow>
   get_combined_screenshot slices (w # ws) =
     Inr (Png_canvas
       \<lparr>cv_mode = im_mode (hd slices),
        cv_size = (w, sum_list (map im_height slices) + 150),
        cv_pastes = map (\<lambda>i. (slices ! i, 0, sum_list (map im_height (take i slices))))
                      [0..<length slices]\<rparr>)"
  unfolding get_combined_screenshot_def
  by (simp add: case_list_nonempty fold_total_height fold_paste del: upt_Suc)

lemma ScreenshotHelper_get_combined_screenshot_eq:
  "ScreenshotHelper_get_combined_screenshot slices width = get_combined_screenshot slices width"
  by (simp add: ScreenshotHelper_get_combined_screenshot_def get_combined_screenshot_def)

text \<open>
  C4. For every non-empty sequence of tiles and every target width, both merge functions
  (\<open>get_combined_screenshot\<close> of methods.py and of \<open>ScreenshotHelper\<close>) return the same
  image: its size is exactly (width, sum of the tiles' heights + 150), the tiles are
  pasted in sequence order, and tile \<open>i\<close> is pasted at \<open>(0, y)\<close> with \<open>y\<close> the sum of
  the heights of the tiles before it.
\<close>

theorem merge_size_and_offsets:
  assumes "slices \<noteq> []"
  shows "\<exists>cv. get_combined_screenshot slices [w] = Inr (Png_canvas cv) \<and>
              ScreenshotHelper_get_combined_screenshot slices [w] = Inr (Png_canvas cv) \<and>
              cv_size cv = (w, sum_list (map im_height slices) + 150) \<and>
              map fst (cv_pastes cv) = slices \<and>
              (\<forall>i < length slices.
                 cv_pastes cv ! i = (slices ! i, 0, sum_list (map im_height (take i slices))))"
proof -
  define cv where "cv =
     \<lparr>cv_mode = im_mode (hd slices),
      cv_size = (w, sum_list (map im_height slices) + 150),
      cv_pastes = map (\<lambda>i. (slices ! i, 0, sum_list (map im_height (take i slices))))
                    [0..<length slices]\<rparr>"
  have m: "get_combined_screenshot slices [w] = Inr (Png_canvas cv)"
    unfolding cv_def using assms by (rule get_combined_screenshot_nonempty)
  have "cv_size cv = (w, sum_list (map im_height slices) + 150)"
    by (simp add: cv_def)
  moreover have "map fst (cv_pastes cv) = slices"
    by (simp add: cv_def comp_def map_nth del: upt_Suc)
  moreover have "\<forall>i < length slices.
      cv_pastes cv ! i = (slices ! i, 0, sum_list (map im_height (take i slices)))"
    by (simp add: cv_def del: upt_Suc)
  ultimately show ?thesis
    using m by (auto simp: ScreenshotHelper_get_combined_screenshot_eq)
qed

text \<open>
  The spec's example: tiles of heights 100, 100 and 50 and width 800 give an image of
  800 by 250 + 150, with the third tile pasted at vertical offset 200.
\<close>

theorem merge_size_and_offsets_witness:
  "[tile 100, tile 100, tile 50] \<noteq> [] \<and>
   (\<exists>cv. get_combined_screenshot [tile 100, tile 100, tile 50] [800] = Inr (Png_canvas cv) \<and>
         ScreenshotHelper_get_combined_screenshot [tile 100, tile 100, tile 50] [800]
           = Inr (Png_canvas cv) \<and>
         cv_size cv = (800, 250 + 150) \<and>
         cv_pastes cv ! 2 = (tile 50, 0, 200))"
  using merge_size_and_offsets [of "[tile 100, tile 100, tile 50]" 800]
  by (auto simp: tile_def)

text \<open>
  C5. Merging an empty tile sequence raises (the \<open>IndexError\<close> of \<open>slices[0]\<close>, which is
  the failure the spec calls EmptyComposite) and returns no image bytes, in both merge
  functions and for every width argument.
\<close>

theorem merge_empty_raises:
  "get_combined_screenshot [] width = Inl IndexError \<and>
   ScreenshotHelper_get_combined_screenshot [] width = Inl IndexError"
  by (simp add: get_combined_screenshot_def ScreenshotHelper_get_combined_screenshot_def)

section \<open>The tiled path of BrowserHandler\<close>

lemmas BrowserHandler_defs =
  BrowserHandler_get_screenshot_def BrowserHandler_get_screenshot_try_def
  BrowserHandler_get_screenshot_using_cut_and_merger_def
  BrowserHandler_get_max_height_def BrowserHandler_get_max_height_loop.simps
  BrowserHandler_get_max_height_round_def BrowserHandler_get_actual_height_def
  BrowserHandler_capture_remaining_section_def tile_loop.simps capture_tile_def
  ScreenshotHelper_is_valid_screenshot_def

lemmas example_defs =
  static_page_def growing_page_def failing_at_def tile_def no_automation_def two_kilobytes_def

text \<open>
  C3, amended. Every run of \<open>__get_screenshot_using_cut_and_merger\<close> that completes its
  tile loop and its remainder step raises \<open>TypeError\<close> at the merge call, which passes
  three arguments to the two-parameter \<open>ScreenshotHelper.get_combined_screenshot\<close>; and
  no run at all returns a composite image.
\<close>

theorem tiled_path_raises_type_error:
  assumes "BrowserHandler_get_max_height 0 5 wd = (Inr max_height, wd1)"
    and "execute_script OuterMinusInner wd1 = (Inr chrome, wd2)"
    and "set_window_size max_width (15000 + chrome) wd2 = (Inr (), wd3)"
    and "tile_loop 0 screenshot_delay (max_height div 15000) [] 0 0 wd3
           = (Inr (slices, offset), wd4)"
    and "BrowserHandler_capture_remaining_section slices max_height max_width 15000 0
           screenshot_delay wd4 = (Inr last_image, wd5)"
  shows "BrowserHandler_get_screenshot_using_cut_and_merger max_width screenshot_delay wd
           = (Inl TypeError, wd5) \<and>
         (\<forall>w d s png. fst (BrowserHandler_get_screenshot_using_cut_and_merger w d s) \<noteq> Inr png)"
proof
  show "BrowserHandler_get_screenshot_using_cut_and_merger max_width screenshot_delay wd
          = (Inl TypeError, wd5)"
    using assms
    by (simp add: BrowserHandler_get_screenshot_using_cut_and_merger_def io_bind_def
          call_positional_def io_raise_def)
  show "\<forall>w d s png. fst (BrowserHandler_get_screenshot_using_cut_and_merger w d s) \<noteq> Inr png"
    by (auto simp: BrowserHandler_get_screenshot_using_cut_and_merger_def io_bind_def
          call_positional_def io_raise_def Let_def split: prod.splits sum.splits)
qed

theorem tiled_path_raises_type_error_witness:
  "fst (BrowserHandler_get_screenshot_using_cut_and_merger 980 5 (static_page 31000 15000 15000))
     = Inl TypeError"
proof -
  define wd where "wd = static_page 31000 15000 15000"
  define wd1 where "wd1 = snd (BrowserHandler_get_max_height 0 5 wd)"
  define wd2 where "wd2 = snd (execute_script OuterMinusInner wd1)"
  define wd3 where "wd3 = snd (set_window_size 980 (15000 + 85) wd2)"
  define wd4 where "wd4 = snd (tile_loop 0 5 (31000 div 15000) [] 0 0 wd3)"
  define wd5 where "wd5 = snd (BrowserHandler_capture_remaining_section
                                 [tile 15000, tile 15000] 31000 980 15000 0 5 wd4)"
  have h1: "BrowserHandler_get_max_height 0 5 wd = (Inr 31000, wd1)"
    by (simp add: wd1_def wd_def prod_eq_iff BrowserHandler_defs example_defs run_defs Let_def)
  have w1: "wd1 = wd\<lparr>calls := [ExecuteScript BodyScrollHeight, ExecuteScript DocScrollHeight,
                                ExecuteScript (ScrollTo 0 31000), Sleep 5,
                                ExecuteScript BodyScrollHeight, ExecuteScript DocScrollHeight]\<rparr>"
    by (simp add: wd1_def wd_def BrowserHandler_defs example_defs run_defs Let_def)
  have h2: "execute_script OuterMinusInner wd1 = (Inr 85, wd2)"
    by (simp add: wd2_def w1 wd_def prod_eq_iff example_defs run_defs Let_def)
  have w2: "wd2 = wd\<lparr>calls := calls wd1 @ [ExecuteScript OuterMinusInner]\<rparr>"
    by (simp add: wd2_def w1 wd_def example_defs run_defs Let_def)
  have h3: "set_window_size 980 (15000 + 85) wd2 = (Inr (), wd3)"
    by (simp add: wd3_def w2 w1 wd_def prod_eq_iff example_defs run_defs Let_def)
  have w3: "wd3 = wd\<lparr>calls := calls wd2 @ [SetWindowSize 980 15085]\<rparr>"
    by (simp add: wd3_def w2 w1 wd_def example_defs run_defs Let_def)
  have h4: "tile_loop 0 5 (31000 div 15000) [] 0 0 wd3
              = (Inr ([tile 15000, tile 15000], 30000), wd4)"
    by (simp add: wd4_def w3 w2 w1 wd_def prod_eq_iff BrowserHandler_defs example_defs run_defs
          Let_def)
  have w4: "wd4 = wd\<lparr>calls := calls wd3 @
                     [ExecuteScript (ScrollTo 0 0), Sleep 5, GetScreenshotAsPng,
                      ExecuteScript (ScrollTo 0 15000), Sleep 5, GetScreenshotAsPng]\<rparr>"
    by (simp add: wd4_def w3 w2 w1 wd_def BrowserHandler_defs example_defs run_defs Let_def)
  have h5: "BrowserHandler_capture_remaining_section [tile 15000, tile 15000] 31000 980 15000 0 5
              wd4 = (Inr (Some (tile 15000)), wd5)"
    by (simp add: wd5_def w4 w3 w2 w1 wd_def prod_eq_iff BrowserHandler_defs example_defs
          run_defs Let_def)
  from tiled_path_raises_type_error [OF h1 h2 h3 h4 h5] show ?thesis
    by (simp add: wd_def)
qed

text \<open>
  The claim as stated fails when the remainder step fails: on a page 31000 pixels high
  the tile loop completes with its two captures, the remainder step forces the body
  height and scrolls, its screenshot (the call at position 20) raises, and the run ends
  with that driver error; the merge call is never reached.
\<close>

lemma late_failure_run_observed:
  "(case late_failure_run of (r, wd') \<Rightarrow>
      (r, length (calls wd'), calls wd' ! 14, calls wd' ! 20, primary_captures (calls wd')))
   = (Inl WebDriverException, 21, ExecuteScript (SetBodyHeight 46000), GetScreenshotAsPng, 2)"
  by (simp add: late_failure_run_def BrowserHandler_defs example_defs run_defs Let_def
        primary_captures_def captures_def)

theorem tiled_path_raises_type_error_counterexample:
  "primary_captures (calls (snd late_failure_run)) = 2 \<and>
   calls (snd late_failure_run) ! 14 = ExecuteScript (SetBodyHeight 46000) \<and>
   length (calls (snd late_failure_run)) = 21 \<and>
   calls (snd late_failure_run) ! 20 = GetScreenshotAsPng \<and>
   raises (failing_at 20 (static_page 31000 15000 15000)) 20 \<and>
   fst late_failure_run = Inl WebDriverException"
proof -
  obtain r wd' where e: "late_failure_run = (r, wd')" by (cases late_failure_run)
  show ?thesis using late_failure_run_observed unfolding e by (simp add: failing_at_def)
qed

section \<open>Driver errors\<close>

lemma succeed_append:
  "succeed R k (xs @ ys) = (succeed R k xs \<and> succeed R (k + length xs) ys)"
  by (induction xs arbitrary: k) auto

lemma succeed_nth:
  "succeed R k cs \<Longrightarrow> i < length cs \<Longrightarrow> R (k + i) \<Longrightarrow> is_sleep (cs ! i)"
proof (induction cs arbitrary: k i)
  case Nil
  then show ?case by simp
next
  case (Cons c cs)
  show ?case
  proof (cases i)
    case 0
    with Cons.prems show ?thesis by auto
  next
    case (Suc j)
    with Cons.prems Cons.IH [of "Suc k" j] show ?thesis by auto
  qed
qed

lemma failed_nth:
  assumes "failed R k cs" "i < length cs" "R (k + i)" "\<not> is_sleep (cs ! i)"
  shows "i = length cs - 1"
proof -
  from assms(1) obtain ok c where cs: "cs = ok @ [c]" and ok: "succeed R k ok"
    by (auto simp: failed_def)
  show ?thesis
  proof (rule ccontr)
    assume "i \<noteq> length cs - 1"
    with assms(2) cs have i: "i < length ok" by auto
    with succeed_nth [OF ok i assms(3)] assms(4) cs show False
      by (simp add: nth_append)
  qed
qed

lemma outcome_compose:
  assumes "succeed R k cs1" "outcome R (k + length cs1) cs2 r"
  shows "outcome R k (cs1 @ cs2) r"
proof (cases "r = Inl WebDriverException")
  case True
  with assms(2) obtain ok c where "cs2 = ok @ [c]" "succeed R (k + length cs1) ok"
    "R (k + length cs1 + length ok)" "\<not> is_sleep c"
    by (auto simp: outcome_def failed_def)
  then have "failed R k (cs1 @ cs2)"
    unfolding failed_def using assms(1)
    by (intro exI [of _ "cs1 @ ok"] exI [of _ c]) (simp add: succeed_append add.assoc)
  with True show ?thesis by (simp add: outcome_def)
next
  case False
  with assms show ?thesis by (simp add: outcome_def succeed_append)
qed

lemma traced_at_trans:
  assumes "traced_at wd (Inr x, wd1)" "traced_at wd1 res"
  shows "traced_at wd res"
proof -
  from assms(1) obtain cs1 where s1: "wd1 = wd\<lparr>calls := calls wd @ cs1\<rparr>"
    and o1: "succeed (raises wd) (length (calls wd)) cs1"
    by (auto simp: traced_at_def outcome_def)
  from assms(2) obtain cs2 where s2: "snd res = wd1\<lparr>calls := calls wd1 @ cs2\<rparr>"
    and o2: "outcome (raises wd1) (length (calls wd1)) cs2 (fst res)"
    by (auto simp: traced_at_def)
  have "outcome (raises wd) (length (calls wd)) (cs1 @ cs2) (fst res)"
    using o2 s1 by (intro outcome_compose [OF o1]) simp
  moreover have "snd res = wd\<lparr>calls := calls wd @ (cs1 @ cs2)\<rparr>"
    using s2 s1 by simp
  ultimately show ?thesis unfolding traced_at_def by blast
qed

lemma traced_at_Inl:
  "traced_at wd (Inl e :: error + 'a, wd1) \<Longrightarrow> traced_at wd (Inl e :: error + 'b, wd1)"
  by (simp add: traced_at_def outcome_def)

lemma traced_at_refl: "r \<noteq> Inl WebDriverException \<Longrightarrow> traced_at wd (r, wd)"
  by (simp add: traced_at_def outcome_def)

lemma traced_at_bind:
  assumes "traced_at wd (m wd)"
    and "\<And>x wd1. m wd = (Inr x, wd1) \<Longrightarrow> traced_at wd1 (f x wd1)"
  shows "traced_at wd (io_bind m f wd)"
proof (cases "m wd")
  case (Pair r wd1)
  show ?thesis
  proof (cases r)
    case (Inl e)
    with Pair assms(1) show ?thesis
      by (simp add: io_bind_def traced_at_Inl)
  next
    case (Inr x)
    with Pair assms(1) assms(2) [of x wd1] show ?thesis
      by (simp add: io_bind_def) (rule traced_at_trans)
  qed
qed

lemma traced_bind [intro!]: "traced m \<Longrightarrow> (\<And>x. traced (f x)) \<Longrightarrow> traced (io_bind m f)"
  unfolding traced_def by (auto intro: traced_at_bind)

lemma traced_return [intro!, simp]: "traced (io_return x)"
  by (simp add: traced_def io_return_def traced_at_refl)

lemma traced_raise [intro]: "e \<noteq> WebDriverException \<Longrightarrow> traced (io_raise e)"
  by (simp add: traced_def io_raise_def traced_at_refl)

lemma traced_lift [intro]: "r \<noteq> Inl WebDriverException \<Longrightarrow> traced (lift r)"
  by (simp add: traced_def lift_def traced_at_refl)

lemma traced_sleep [intro!, simp]: "traced (sleep d)"
  by (simp add: traced_def traced_at_def sleep_def outcome_def)

lemma traced_driver_call: "\<not> is_sleep c \<Longrightarrow> traced (driver_call c answer)"
  unfolding traced_def traced_at_def
proof
  fix wd
  assume c: "\<not> is_sleep c"
  show "\<exists>cs. snd (driver_call c answer wd) = wd\<lparr>calls := calls wd @ cs\<rparr> \<and>
        outcome (raises wd) (length (calls wd)) cs (fst (driver_call c answer wd))"
  proof (cases "raises wd (length (calls wd))")
    case True
    have "failed (raises wd) (length (calls wd)) [c]"
      unfolding failed_def using True c by (intro exI [of _ "[]"] exI [of _ c]) simp
    with True show ?thesis
      by (intro exI [of _ "[c]"]) (simp add: driver_call_def Let_def outcome_def)
  next
    case False
    then show ?thesis
      by (intro exI [of _ "[c]"]) (simp add: driver_call_def Let_def outcome_def)
  qed
qed

lemma traced_execute_script [intro!, simp]: "traced (execute_script s)"
  by (simp add: execute_script_def traced_driver_call)

lemma traced_set_window_size [intro!, simp]: "traced (set_window_size w h)"
  by (simp add: set_window_size_def traced_driver_call)

lemma traced_get_screenshot_as_png [intro!, simp]: "traced get_screenshot_as_png"
  by (simp add: get_screenshot_as_png_def traced_driver_call)

lemma traced_get_page_height [intro!, simp]: "traced get_page_height"
  unfolding get_page_height_def by (intro traced_bind traced_execute_script traced_return)

lemma traced_get_window_height [intro!, simp]: "traced (get_window_height v)"
  unfolding get_window_height_def by (intro traced_bind traced_execute_script traced_return)

lemma traced_get_max_height_round [intro!, simp]: "traced (get_max_height_round w)"
  unfolding get_max_height_round_def by (intro traced_bind) simp_all

lemma traced_capture_tile [intro!, simp]: "traced (capture_tile x y d)"
  unfolding capture_tile_def by (intro traced_bind) simp_all

lemma traced_tile_loop_at: "traced_at wd (tile_loop scroll_x d n slices offset c wd)"
proof (induction scroll_x d n slices offset c wd rule: tile_loop.induct)
  case (1 scroll_x d n slices offset c wd)
  show ?case
  proof (cases "c < n")
    case False
    then show ?thesis
      by (subst tile_loop.simps) (simp add: traced_at_refl)
  next
    case True
    have "tile_loop scroll_x d n slices offset c wd
            = io_bind (capture_tile scroll_x offset d)
                (\<lambda>img. tile_loop scroll_x d n (slices @ [img]) (offset + im_height img) (c + 1)) wd"
      using True by (subst tile_loop.simps) (simp add: io_bind_def)
    moreover have "traced_at wd (io_bind (capture_tile scroll_x offset d)
                (\<lambda>img. tile_loop scroll_x d n (slices @ [img]) (offset + im_height img) (c + 1)) wd)"
    proof (rule traced_at_bind)
      show "traced_at wd (capture_tile scroll_x offset d wd)"
        using traced_capture_tile by (simp add: traced_def)
      show "traced_at wd1 (tile_loop scroll_x d n (slices @ [x]) (offset + im_height x) (c + 1) wd1)"
        if "capture_tile scroll_x offset d wd = (Inr x, wd1)" for x wd1
        using "1.IH" [OF True that [symmetric] refl] .
    qed
    ultimately show ?thesis by simp
  qed
qed

lemma traced_tile_loop [intro!, simp]: "traced (tile_loop scroll_x d n slices offset c)"
  by (simp add: traced_def traced_tile_loop_at)

lemma get_combined_screenshot_no_driver_error:
  "get_combined_screenshot slices width \<noteq> Inl WebDriverException"
  by (simp add: get_combined_screenshot_def Let_def split: list.splits prod.splits)

lemma traced_capture_remaining_page [intro!, simp]:
  "traced (capture_remaining_page ss_chunks total_height win_width viewport scroll_x d)"
  unfolding capture_remaining_page_def Let_def
  by (auto intro!: traced_bind traced_raise split: list.splits)

lemma get_max_height_traced:
  assumes "get_max_height w0 wd0 = Some res0"
  shows "traced_at wd0 res0"
  apply (rule get_max_height.raw_induct [where P = "\<lambda>w wd res. traced_at wd res", OF _ assms])
  subgoal premises prems for f w wd res
  proof -
    have r: "traced_at wd (get_max_height_round w wd)"
      using traced_get_max_height_round by (simp add: traced_def)
    show ?thesis
    proof (cases "get_max_height_round w wd")
      case (Pair a wd1)
      show ?thesis
      proof (cases a)
        case (Inl e)
        with Pair prems(2) r show ?thesis by (auto intro: traced_at_Inl)
      next
        case (Inr pn)
        obtain p n where pn: "pn = (p, n)" by (cases pn)
        show ?thesis
        proof (cases "p = n")
          case True
          with Pair Inr pn prems(2) r show ?thesis
            by (auto simp: traced_at_def outcome_def)
        next
          case False
          with Pair Inr pn prems(2) have "f w wd1 = Some res" by simp
          from prems(1) [OF this] have "traced_at wd1 res" .
          with r Pair Inr show ?thesis by (auto intro: traced_at_trans)
        qed
      qed
    qed
  qed
  done


lemma io_bind_partial_traced:
  assumes "io_bind_partial m f wd = Some res"
    and "\<And>r. m wd = Some r \<Longrightarrow> traced_at wd r"
    and "\<And>x. traced (f x)"
  shows "traced_at wd res"
proof (cases "m wd")
  case None
  with assms(1) show ?thesis by (simp add: io_bind_partial_def)
next
  case (Some r)
  obtain a wd1 where r: "r = (a, wd1)" by (cases r)
  from assms(2) [OF Some] r have t: "traced_at wd (a, wd1)" by simp
  show ?thesis
  proof (cases a)
    case (Inl e)
    with Some r assms(1) t show ?thesis
      by (auto simp: io_bind_partial_def intro: traced_at_Inl)
  next
    case (Inr x)
    with Some r assms(1) have "res = f x wd1" by (simp add: io_bind_partial_def)
    moreover have "traced_at wd1 (f x wd1)" using assms(3) [of x] by (simp add: traced_def)
    ultimately show ?thesis using t Inr by (auto intro: traced_at_trans)
  qed
qed

lemma get_screenshot_using_cut_and_merger_traced:
  assumes "get_screenshot_using_cut_and_merger w d wd = Some res"
  shows "traced_at wd res"
  using assms unfolding get_screenshot_using_cut_and_merger_def Let_def
  by (rule io_bind_partial_traced)
     (auto intro!: get_max_height_traced traced_bind traced_raise traced_lift
           simp: get_combined_screenshot_no_driver_error)

lemma get_screenshot_try_traced:
  assumes "get_screenshot_try full df_wd df_ht default_height d wd = Some res"
  shows "traced_at wd res"
proof (cases full)
  case False
  have "traced (io_bind (set_window_size df_wd df_ht) (\<lambda>_.
                io_bind (sleep d) (\<lambda>_.
                io_bind get_screenshot_as_png (\<lambda>png_ss.
                io_return (Png_screenshot png_ss)))))"
    by (intro traced_bind) simp_all
  with False assms show ?thesis
    by (auto simp: get_screenshot_try_def Let_def traced_def)
next
  case True
  show ?thesis
  proof (cases "get_max_height df_wd wd")
    case None
    with True assms show ?thesis by (simp add: get_screenshot_try_def)
  next
    case (Some r)
    obtain a wd1 where r: "r = (a, wd1)" by (cases r)
    from get_max_height_traced [OF Some] r have t: "traced_at wd (a, wd1)" by simp
    show ?thesis
    proof (cases a)
      case (Inl e)
      with Some r True assms t show ?thesis
        by (auto simp: get_screenshot_try_def intro: traced_at_Inl)
    next
      case (Inr max_height)
      show ?thesis
      proof (cases "max_height \<le> default_height")
        case False
        with Some r True Inr assms
        have "get_screenshot_using_cut_and_merger df_wd d wd1 = Some res"
          by (simp add: get_screenshot_try_def)
        from get_screenshot_using_cut_and_merger_traced [OF this] t Inr
        show ?thesis by (auto intro: traced_at_trans)
      next
        case le: True
        define single where "single =
           io_bind (get_window_height max_height) (\<lambda>new_window_height.
           io_bind (set_window_size df_wd new_window_height) (\<lambda>_.
           io_bind (sleep d) (\<lambda>_.
           io_bind (execute_script (ScrollTo df_wd max_height)) (\<lambda>_.
           io_bind (sleep d) (\<lambda>_.
           io_bind (execute_script (ScrollTo 0 0)) (\<lambda>_.
           io_bind (sleep d) (\<lambda>_.
           io_bind get_screenshot_as_png (\<lambda>png_ss.
           io_return (Png_screenshot png_ss)))))))))"
        have "traced single"
          unfolding single_def by (intro traced_bind) simp_all
        then have "traced_at wd1 (single wd1)" by (simp add: traced_def)
        moreover have "res = single wd1"
          using Some r True Inr le assms by (simp add: get_screenshot_try_def single_def)
        ultimately show ?thesis using t Inr by (auto intro: traced_at_trans)
      qed
    qed
  qed
qed

text \<open>
  main.py's \<open>get_screenshot\<close> produces a result on every session, unless one of its height
  probes never returns (the probe of \<open>get_screenshot\<close> itself, or the second one that the
  tiled path makes): every other step is a finite sequence of driver calls.
\<close>

lemma get_screenshot_returns:
  "get_screenshot full df_wd df_ht default_height screenshot_delay wd = None \<longleftrightarrow>
     full \<and> (get_max_height df_wd wd = None \<or>
       (\<exists>h wd1. get_max_height df_wd wd = Some (Inr h, wd1) \<and> \<not> h \<le> default_height \<and>
          get_max_height df_wd wd1 = None))"
  by (auto simp: get_screenshot_def get_screenshot_try_def
      get_screenshot_using_cut_and_merger_def io_bind_partial_def Let_def
      split: option.splits sum.splits prod.splits if_splits)

lemmas methods_defs =
  get_screenshot_def get_screenshot_try_def get_screenshot_using_cut_and_merger_def
  io_bind_partial_def get_max_height.simps get_max_height_round_def get_page_height_def
  get_window_height_def capture_remaining_page_def tile_loop.simps capture_tile_def

text \<open>
  C9, amended. If any capture call (in the tile loop or elsewhere) raises a driver error,
  the capture aborts without retry, that call being the last driver call of the run;
  main.py's \<open>get_screenshot\<close> catches the error and returns \<open>None\<close> to its caller, so
  the error itself does not surface, and neither a partial tile sequence nor a partial
  composite is returned.
\<close>

theorem capture_failure_returns_none:
  assumes "get_screenshot full df_wd df_ht default_height screenshot_delay wd = Some (r, wd')"
    and "i < length (new_calls wd wd')"
    and "new_calls wd wd' ! i = GetScreenshotAsPng"
    and "raises wd (length (calls wd) + i)"
  shows "r = Inr None \<and> Suc i = length (new_calls wd wd')"
proof -
  from assms(1) obtain rt where
    t: "get_screenshot_try full df_wd df_ht default_height screenshot_delay wd = Some (rt, wd')"
    and r: "r = (case rt of Inl e \<Rightarrow> Inr None | Inr png_ss \<Rightarrow> Inr (Some png_ss))"
    by (auto simp: get_screenshot_def split: option.splits sum.splits)
  from get_screenshot_try_traced [OF t] obtain cs where
    s: "wd' = wd\<lparr>calls := calls wd @ cs\<rparr>"
    and o: "outcome (raises wd) (length (calls wd)) cs rt"
    by (auto simp: traced_at_def)
  have cs: "new_calls wd wd' = cs" using s by simp
  have ns: "\<not> is_sleep (cs ! i)" using assms(3) cs by simp
  have f: "rt = Inl WebDriverException"
  proof (rule ccontr)
    assume "rt \<noteq> Inl WebDriverException"
    with o have "succeed (raises wd) (length (calls wd)) cs" by (simp add: outcome_def)
    from succeed_nth [OF this _ assms(4)] assms(2) cs ns show False by simp
  qed
  with o have "failed (raises wd) (length (calls wd)) cs" by (simp add: outcome_def)
  from failed_nth [OF this _ assms(4) ns] assms(2) cs have "i = length cs - 1" by simp
  with assms(2) cs f r show ?thesis by simp
qed

lemma interrupted_capture_observed:
  "map_option (\<lambda>(r, wd'). (r, length (calls wd'), calls wd' ! 36, calls wd' ! 37, calls wd' ! 39))
     interrupted_capture
   = Some (Inr None, 40, GetScreenshotAsPng, ExecuteScript (ScrollTo 0 15000), GetScreenshotAsPng)"
  by (simp add: interrupted_capture_def methods_defs example_defs run_defs Let_def)

theorem capture_failure_returns_none_witness:
  "interrupted_capture \<noteq> None \<and>
   fst (the interrupted_capture) = Inr None \<and>
   length (calls (snd (the interrupted_capture))) = 40"
proof -
  define wd where "wd = failing_at 39 (static_page 31000 15000 15000)"
  define r where "r = fst (the interrupted_capture)"
  define wd' where "wd' = snd (the interrupted_capture)"
  from interrupted_capture_observed obtain run where
    e: "interrupted_capture = Some run" and c: "calls (snd run) ! 39 = GetScreenshotAsPng"
    and l: "length (calls (snd run)) = 40"
    by auto
  have run: "run = (r, wd')" by (simp add: r_def wd'_def e)
  have h1: "get_screenshot True 1366 900 15000 20 wd = Some (r, wd')"
    using e run by (simp add: interrupted_capture_def wd_def)
  have n: "calls wd = []" by (simp add: wd_def example_defs)
  have h2: "39 < length (new_calls wd wd')" using l run n by (simp add: new_calls_def)
  have h3: "new_calls wd wd' ! 39 = GetScreenshotAsPng" using c run n by (simp add: new_calls_def)
  have h4: "raises wd (length (calls wd) + 39)" by (simp add: wd_def example_defs)
  from capture_failure_returns_none [OF h1 h2 h3 h4] run n show ?thesis
    unfolding e by (simp add: new_calls_def)
qed

text \<open>
  The claim as stated fails: the second screenshot of the tile loop raises (one tile is
  already captured), and \<open>get_screenshot\<close> returns \<open>None\<close> to its caller instead
  of letting the driver error surface.
\<close>

theorem capture_failure_returns_none_counterexample:
  "calls (snd (the interrupted_capture)) ! 36 = GetScreenshotAsPng \<and>
   calls (snd (the interrupted_capture)) ! 37 = ExecuteScript (ScrollTo 0 15000) \<and>
   calls (snd (the interrupted_capture)) ! 39 = GetScreenshotAsPng \<and>
   raises (failing_at 39 (static_page 31000 15000 15000)) 39 \<and>
   interrupted_capture \<noteq> None \<and>
   fst (the interrupted_capture) = Inr None"
proof -
  from interrupted_capture_observed obtain wd' where
    e: "interrupted_capture = Some (Inr None, wd')"
    and "calls wd' ! 36 = GetScreenshotAsPng" "calls wd' ! 37 = ExecuteScript (ScrollTo 0 15000)"
      "calls wd' ! 39 = GetScreenshotAsPng"
    by auto
  then show ?thesis unfolding e by (simp add: failing_at_def)
qed

lemma traced_BrowserHandler_get_actual_height [intro!, simp]:
  "traced BrowserHandler_get_actual_height"
  unfolding BrowserHandler_get_actual_height_def by (intro traced_bind) simp_all

lemma traced_BrowserHandler_get_max_height_round [intro!, simp]:
  "traced (BrowserHandler_get_max_height_round delay)"
  unfolding BrowserHandler_get_max_height_round_def by (intro traced_bind) simp_all

lemma traced_BrowserHandler_get_max_height_loop_at:
  "traced_at wd (BrowserHandler_get_max_height_loop delay bound count0 m wd)"
proof (induction delay bound count0 m wd rule: BrowserHandler_get_max_height_loop.induct)
  case (1 delay bound count0 m wd)
  show ?case
  proof (cases "count0 < bound")
    case False
    then show ?thesis
      by (subst BrowserHandler_get_max_height_loop.simps) (simp add: traced_at_refl)
  next
    case True
    have "BrowserHandler_get_max_height_loop delay bound count0 m wd
            = io_bind (BrowserHandler_get_max_height_round delay)
                (\<lambda>(previous_max_height, new_max_height).
                   if new_max_height = previous_max_height then io_return new_max_height
                   else BrowserHandler_get_max_height_loop delay bound (count0 + 1) m) wd"
      using True
      by (subst BrowserHandler_get_max_height_loop.simps)
         (simp add: io_bind_def io_return_def split: prod.splits sum.splits)
    moreover have "traced_at wd (io_bind (BrowserHandler_get_max_height_round delay)
                (\<lambda>(previous_max_height, new_max_height).
                   if new_max_height = previous_max_height then io_return new_max_height
                   else BrowserHandler_get_max_height_loop delay bound (count0 + 1) m) wd)"
    proof (rule traced_at_bind)
      show "traced_at wd (BrowserHandler_get_max_height_round delay wd)"
        using traced_BrowserHandler_get_max_height_round by (simp add: traced_def)
      show "traced_at wd1
              ((case x of (previous_max_height, new_max_height) \<Rightarrow>
                  if new_max_height = previous_max_height then io_return new_max_height
                  else BrowserHandler_get_max_height_loop delay bound (count0 + 1) m) wd1)"
        if "BrowserHandler_get_max_height_round delay wd = (Inr x, wd1)" for x wd1
      proof (cases x)
        case (Pair p q)
        show ?thesis
        proof (cases "q = p")
          case True
          with Pair show ?thesis by (simp add: io_return_def traced_at_refl)
        next
          case False
          from "1.IH" [OF \<open>count0 < bound\<close> _ refl refl False, of wd1] that Pair False
          show ?thesis by simp
        qed
      qed
    qed
    ultimately show ?thesis by simp
  qed
qed

lemma traced_BrowserHandler_get_max_height_loop [intro!, simp]:
  "traced (BrowserHandler_get_max_height_loop delay bound count0 m)"
  by (simp add: traced_def traced_BrowserHandler_get_max_height_loop_at)

lemma traced_BrowserHandler_get_max_height [intro!, simp]:
  "traced (BrowserHandler_get_max_height df_ht delay)"
  unfolding BrowserHandler_get_max_height_def
  by (intro traced_bind traced_return traced_BrowserHandler_get_max_height_loop)

lemma traced_BrowserHandler_capture_remaining_section [intro!, simp]:
  "traced (BrowserHandler_capture_remaining_section ss_chunks total_height win_width win_height
             scroll_x d)"
  unfolding BrowserHandler_capture_remaining_section_def Let_def
  by (auto intro!: traced_bind traced_raise split: list.splits)

lemma traced_BrowserHandler_get_screenshot_using_cut_and_merger [intro!, simp]:
  "traced (BrowserHandler_get_screenshot_using_cut_and_merger w d)"
  unfolding BrowserHandler_get_screenshot_using_cut_and_merger_def Let_def call_positional_def
  by (auto intro!: traced_bind traced_raise)

lemma traced_BrowserHandler_get_screenshot_try:
  assumes "\<And>a b c d. traced (automation a b c d)"
  shows "traced (BrowserHandler_get_screenshot_try kwargs automation full df_wd df_ht
                   default_height maximum_length_image screenshot_delay)"
  unfolding BrowserHandler_get_screenshot_try_def Let_def
  by (auto intro!: traced_bind assms)

text \<open>
  \<open>BrowserHandler.get_screenshot\<close> has the same handler: whatever the automation path
  does, as long as it keeps to the driver, a capture call that raises is the last call of
  the run and the result is \<open>None\<close>. The \<open>return\<close> inside \<open>except\<close> also skips the
  check that raises \<open>TypeError\<close> for an empty screenshot.
\<close>

lemma BrowserHandler_capture_failure_returns_none:
  assumes auto: "\<And>a b c d. traced (automation a b c d)"
    and run: "BrowserHandler_get_screenshot getsizeof kwargs automation full df_wd df_ht
                default_height maximum_length_image screenshot_delay wd = (r, wd')"
    and i: "i < length (new_calls wd wd')"
    and c: "new_calls wd wd' ! i = GetScreenshotAsPng"
    and f: "raises wd (length (calls wd) + i)"
  shows "r = Inr None \<and> Suc i = length (new_calls wd wd')"
proof -
  obtain rt wdt where
    t: "BrowserHandler_get_screenshot_try kwargs automation full df_wd df_ht default_height
          maximum_length_image screenshot_delay wd = (rt, wdt)"
    by (cases "BrowserHandler_get_screenshot_try kwargs automation full df_wd df_ht
                 default_height maximum_length_image screenshot_delay wd")
  have w: "wd' = wdt"
    using run t by (auto simp: BrowserHandler_get_screenshot_def split: sum.splits if_splits)
  have "traced_at wd (BrowserHandler_get_screenshot_try kwargs automation full df_wd df_ht
                        default_height maximum_length_image screenshot_delay wd)"
    using traced_BrowserHandler_get_screenshot_try [OF auto] by (simp add: traced_def)
  then obtain cs where s: "wdt = wd\<lparr>calls := calls wd @ cs\<rparr>"
    and o: "outcome (raises wd) (length (calls wd)) cs rt"
    using t by (auto simp: traced_at_def)
  have cs: "new_calls wd wd' = cs" using s w by simp
  have ns: "\<not> is_sleep (cs ! i)" using c cs by simp
  have e: "rt = Inl WebDriverException"
  proof (rule ccontr)
    assume "rt \<noteq> Inl WebDriverException"
    with o have "succeed (raises wd) (length (calls wd)) cs" by (simp add: outcome_def)
    from succeed_nth [OF this _ f] i cs ns show False by simp
  qed
  with o have "failed (raises wd) (length (calls wd)) cs" by (simp add: outcome_def)
  from failed_nth [OF this _ f ns] i cs have "i = length cs - 1" by simp
  moreover have "r = Inr None"
    using run t e by (simp add: BrowserHandler_get_screenshot_def)
  ultimately show ?thesis using i cs by simp
qed

section \<open>Stabilising the height\<close>

lemma get_max_height_round_growing:
  assumes "raises wd = (\<lambda>k. False)"
    and "number wd = (\<lambda>k s. if s = OuterMinusInner then 85 else 1000 * (int k + 1))"
  shows "\<exists>p n cs. get_max_height_round w wd = (Inr (p, n), wd\<lparr>calls := calls wd @ cs\<rparr>) \<and> p < n"
  using assms
  by (simp add: get_max_height_round_def get_page_height_def run_defs Let_def)

lemma get_max_height_growing:
  assumes "get_max_height w0 wd0 = Some res0"
  shows "\<not> (raises wd0 = (\<lambda>k. False) \<and>
            number wd0 = (\<lambda>k s. if s = OuterMinusInner then 85 else 1000 * (int k + 1)))"
  apply (rule get_max_height.raw_induct
           [where P = "\<lambda>w wd res. \<not> (raises wd = (\<lambda>k. False) \<and>
              number wd = (\<lambda>k s. if s = OuterMinusInner then 85 else 1000 * (int k + 1)))",
            OF _ assms])
  subgoal premises prems for f w wd res
  proof
    assume g: "raises wd = (\<lambda>k. False) \<and>
               number wd = (\<lambda>k s. if s = OuterMinusInner then 85 else 1000 * (int k + 1))"
    then obtain p n cs where
      r: "get_max_height_round w wd = (Inr (p, n), wd\<lparr>calls := calls wd @ cs\<rparr>)" and "p < n"
      using get_max_height_round_growing [of wd w] by blast
    with prems(2) have "f w (wd\<lparr>calls := calls wd @ cs\<rparr>) = Some res" by simp
    from prems(1) [OF this] g show False by simp
  qed
  done

lemma BrowserHandler_get_max_height_loop_result:
  "BrowserHandler_get_max_height_loop delay bound count0 0 wd = (Inr m, wd') \<Longrightarrow>
   m = 0 \<or> (\<exists>wd0. BrowserHandler_get_max_height_round delay wd0 = (Inr (m, m), wd'))"
proof (induction delay bound count0 "0::int" wd rule: BrowserHandler_get_max_height_loop.induct)
  case (1 delay bound count0 wd)
  show ?case
  proof (cases "count0 < bound")
    case False
    with "1.prems" show ?thesis
      by (subst (asm) BrowserHandler_get_max_height_loop.simps) simp
  next
    case True
    obtain r wd1 where r: "BrowserHandler_get_max_height_round delay wd = (r, wd1)"
      by (cases "BrowserHandler_get_max_height_round delay wd")
    show ?thesis
    proof (cases r)
      case (Inl e)
      with "1.prems" True r show ?thesis
        by (subst (asm) BrowserHandler_get_max_height_loop.simps) simp
    next
      case (Inr pq)
      obtain p q where pq: "pq = (p, q)" by (cases pq)
      show ?thesis
      proof (cases "q = p")
        case eq: True
        with "1.prems" \<open>count0 < bound\<close> r Inr pq have "m = p" "wd' = wd1"
          by (subst (asm) BrowserHandler_get_max_height_loop.simps, simp)+
        with r Inr pq eq show ?thesis by auto
      next
        case False
        have r': "BrowserHandler_get_max_height_round delay wd = (Inr (p, q), wd1)"
          using r Inr pq by simp
        have "BrowserHandler_get_max_height_loop delay bound (count0 + 1) 0 wd1 = (Inr m, wd')"
          using "1.prems" \<open>count0 < bound\<close> r' False
          by (subst (asm) BrowserHandler_get_max_height_loop.simps) simp
        from "1.hyps" [OF \<open>count0 < bound\<close> r' [symmetric] refl refl False this]
        show ?thesis .
      qed
    qed
  qed
qed

text \<open>
  Whatever the session does, a height \<open>BrowserHandler.get_max_height\<close> returns is the
  fallback, or it is not zero and was read twice in one round: a reading that was not
  confirmed by a second equal one is never returned.
\<close>

lemma BrowserHandler_get_max_height_result:
  assumes "BrowserHandler_get_max_height df_ht delay wd = (Inr h, wd')"
  shows "h = df_ht \<or>
         (h \<noteq> 0 \<and> (\<exists>wd0. BrowserHandler_get_max_height_round delay wd0 = (Inr (h, h), wd')))"
proof -
  from assms obtain m where
    l: "BrowserHandler_get_max_height_loop delay 5 0 0 wd = (Inr m, wd')"
    and h: "h = (if m = 0 then df_ht else m)"
    by (auto simp: BrowserHandler_get_max_height_def io_bind_def io_return_def
          split: prod.splits sum.splits)
  from BrowserHandler_get_max_height_loop_result [OF l] h show ?thesis
    by (cases "m = 0") auto
qed

text \<open>
  C1. \<open>BrowserHandler.get_max_height\<close> with the fallback 1000 on a page that keeps
  growing: none of the five rounds reads the same height twice, the last reading is
  30000, no reading is zero, and the result is the fallback 1000, because \<open>max_height\<close>
  is still 0 when the loop is left by its bound.
\<close>

theorem exhausted_probe_returns_fallback:
  "number growing_page 29 DocScrollHeight = 30000 \<and>
   length (calls (snd (BrowserHandler_get_max_height 1000 5 growing_page))) = 30 \<and>
   fst (BrowserHandler_get_max_height 1000 5 growing_page) = Inr 1000"
  by (simp add: BrowserHandler_defs example_defs run_defs Let_def)

text \<open>
  C10. \<open>get_max_height\<close> of methods.py loops \<open>while True\<close>: on a page whose height
  keeps growing, where no round reads the same height twice, it never returns.
\<close>

theorem get_max_height_never_returns: "get_max_height 1367 growing_page = None"
proof (cases "get_max_height 1367 growing_page")
  case None
  then show ?thesis .
next
  case (Some res)
  from get_max_height_growing [OF this] show ?thesis
    by (simp add: growing_page_def)
qed


text \<open>
  \<open>BrowserHandler.get_max_height\<close>, the sibling, is bounded: it is a total function,
  and on every session, failing or not, it makes at most 5 rounds of at most 6 calls.
\<close>

lemma BrowserHandler_get_max_height_round_bounded:
  "\<exists>cs. snd (BrowserHandler_get_max_height_round delay wd) = wd\<lparr>calls := calls wd @ cs\<rparr>
        \<and> length cs \<le> 6"
  by (simp add: BrowserHandler_get_max_height_round_def BrowserHandler_get_actual_height_def
        run_defs Let_def)

lemma BrowserHandler_get_max_height_loop_bounded:
  "\<exists>cs. snd (BrowserHandler_get_max_height_loop delay bound count0 m wd)
          = wd\<lparr>calls := calls wd @ cs\<rparr>
        \<and> length cs \<le> 6 * nat (bound - count0)"
proof (induction delay bound count0 m wd rule: BrowserHandler_get_max_height_loop.induct)
  case (1 delay bound count0 m wd)
  show ?case
  proof (cases "count0 < bound")
    case False
    then show ?thesis
      by (subst BrowserHandler_get_max_height_loop.simps) simp
  next
    case True
    from BrowserHandler_get_max_height_round_bounded [of delay wd]
    obtain cs where s: "snd (BrowserHandler_get_max_height_round delay wd)
                          = wd\<lparr>calls := calls wd @ cs\<rparr>"
      and n: "length cs \<le> 6" by blast
    obtain r where r: "BrowserHandler_get_max_height_round delay wd
                         = (r, wd\<lparr>calls := calls wd @ cs\<rparr>)"
      using s by (cases "BrowserHandler_get_max_height_round delay wd") simp
    have b: "6 \<le> 6 * nat (bound - count0)" using True by simp
    show ?thesis
    proof (cases r)
      case (Inl e)
      with r True n b show ?thesis
        by (subst BrowserHandler_get_max_height_loop.simps) auto
    next
      case (Inr pn)
      obtain p q where pn: "pn = (p, q)" by (cases pn)
      show ?thesis
      proof (cases "q = p")
        case True
        with r Inr pn \<open>count0 < bound\<close> n b show ?thesis
          by (subst BrowserHandler_get_max_height_loop.simps) auto
      next
        case False
        have r': "BrowserHandler_get_max_height_round delay wd
                    = (Inr (p, q), wd\<lparr>calls := calls wd @ cs\<rparr>)"
          using r Inr pn by simp
        from "1.IH" [OF \<open>count0 < bound\<close> r' [symmetric] refl refl False]
        obtain cs' where
          l: "snd (BrowserHandler_get_max_height_loop delay bound (count0 + 1) m
                     (wd\<lparr>calls := calls wd @ cs\<rparr>))
                = wd\<lparr>calls := calls wd @ (cs @ cs')\<rparr>"
          and n': "length cs' \<le> 6 * nat (bound - (count0 + 1))"
          by auto
        have "snd (BrowserHandler_get_max_height_loop delay bound count0 m wd)
                = wd\<lparr>calls := calls wd @ (cs @ cs')\<rparr>"
          using \<open>count0 < bound\<close> r' False l
          by (subst BrowserHandler_get_max_height_loop.simps) simp
        moreover have "nat (bound - count0) = Suc (nat (bound - (count0 + 1)))"
          using \<open>count0 < bound\<close> by simp
        then have "length (cs @ cs') \<le> 6 * nat (bound - count0)"
          using n n' by simp
        ultimately show ?thesis by blast
      qed
    qed
  qed
qed

lemma BrowserHandler_get_max_height_bounded:
  "length (new_calls wd (snd (BrowserHandler_get_max_height df_ht delay wd))) \<le> 30"
proof -
  from BrowserHandler_get_max_height_loop_bounded [of delay 5 0 0 wd]
  obtain cs where s: "snd (BrowserHandler_get_max_height_loop delay 5 0 0 wd)
                        = wd\<lparr>calls := calls wd @ cs\<rparr>"
    and n: "length cs \<le> 30" by auto
  have "snd (BrowserHandler_get_max_height df_ht delay wd)
          = snd (BrowserHandler_get_max_height_loop delay 5 0 0 wd)"
    by (cases "BrowserHandler_get_max_height_loop delay 5 0 0 wd")
       (auto simp: BrowserHandler_get_max_height_def io_bind_def io_return_def split: sum.splits)
  with s n show ?thesis by simp
qed

section \<open>The remainder step\<close>

lemma capture_remaining_page_reliable:
  assumes "\<forall>k. \<not> raises wd k" "ss_chunks \<noteq> []" "viewport \<noteq> 0"
    "total_height mod viewport \<noteq> 0"
  shows "capture_remaining_page ss_chunks total_height win_width viewport scroll_x d wd =
         (Inr (Some (png wd (length (calls wd) + 6))),
          wd\<lparr>calls := calls wd @
            [ExecuteScript (SetBodyHeight total_height),
             ExecuteScript OuterMinusInner,
             SetWindowSize win_width
               (total_height mod viewport + number wd (length (calls wd) + 1) OuterMinusInner),
             Sleep d,
             ExecuteScript (ScrollTo scroll_x (im_height (hd ss_chunks) * int (length ss_chunks))),
             Sleep d,
             GetScreenshotAsPng]\<rparr>)"
  using assms
  by (simp add: capture_remaining_page_def get_window_height_def reliable_simps case_list_nonempty
        eval_nat_numeral Let_def)

text \<open>
  C7, amended. Whenever the remainder is not zero, at least one tile has been captured and
  no driver call fails, the remainder step first forces the document body height (to
  \<open>stabilized_height + tile_height\<close> in BrowserHandler, to \<open>stabilized_height\<close> in
  methods.py), then resizes the window to the remainder plus the chrome offset (plus 3500
  in BrowserHandler), waits, scrolls to the vertical offset that is the actual height of
  the first captured tile times the number of tiles captured, waits, and takes the final
  capture.
\<close>

theorem remainder_capture_steps:
  assumes "\<forall>k. \<not> raises wd k"
    and "ss_chunks \<noteq> []"
    and "tile_height \<noteq> 0"
    and "stabilized_height mod tile_height \<noteq> 0"
  shows "new_calls wd (snd (BrowserHandler_capture_remaining_section ss_chunks stabilized_height
                              win_width tile_height scroll_x screenshot_delay wd)) =
           [ExecuteScript (SetBodyHeight (stabilized_height + tile_height)),
            ExecuteScript OuterMinusInner,
            SetWindowSize win_width
              (stabilized_height mod tile_height
                 + number wd (length (calls wd) + 1) OuterMinusInner + 3500),
            Sleep screenshot_delay,
            ExecuteScript (ScrollTo scroll_x (im_height (hd ss_chunks) * int (length ss_chunks))),
            Sleep screenshot_delay,
            GetScreenshotAsPng] \<and>
         new_calls wd (snd (capture_remaining_page ss_chunks stabilized_height
                              win_width tile_height scroll_x screenshot_delay wd)) =
           [ExecuteScript (SetBodyHeight stabilized_height),
            ExecuteScript OuterMinusInner,
            SetWindowSize win_width
              (stabilized_height mod tile_height
                 + number wd (length (calls wd) + 1) OuterMinusInner),
            Sleep screenshot_delay,
            ExecuteScript (ScrollTo scroll_x (im_height (hd ss_chunks) * int (length ss_chunks))),
            Sleep screenshot_delay,
            GetScreenshotAsPng]"
  by (simp add: BrowserHandler_capture_remaining_section_reliable [OF assms]
        capture_remaining_page_reliable [OF assms])

theorem remainder_capture_steps_witness:
  "new_calls (static_page 31000 15000 14990)
     (snd (BrowserHandler_capture_remaining_section [tile 14990, tile 14990] 31000 980 15000 0 5
             (static_page 31000 15000 14990))) =
     [ExecuteScript (SetBodyHeight 46000),
      ExecuteScript OuterMinusInner,
      SetWindowSize 980 4585,
      Sleep 5,
      ExecuteScript (ScrollTo 0 29980),
      Sleep 5,
      GetScreenshotAsPng] \<and>
   new_calls (static_page 31000 15000 14990)
     (snd (capture_remaining_page [tile 14990, tile 14990] 31000 980 15000 0 5
             (static_page 31000 15000 14990))) =
     [ExecuteScript (SetBodyHeight 31000),
      ExecuteScript OuterMinusInner,
      SetWindowSize 980 1085,
      Sleep 5,
      ExecuteScript (ScrollTo 0 29980),
      Sleep 5,
      GetScreenshotAsPng]"
proof -
  have h1: "\<forall>k. \<not> raises (static_page 31000 15000 14990) k" by (simp add: static_page_def)
  have h2: "[tile 14990, tile 14990] \<noteq> []" by simp
  have h3: "(15000::int) \<noteq> 0" by simp
  have h4: "(31000::int) mod 15000 \<noteq> 0" by simp
  from remainder_capture_steps [OF h1 h2 h3 h4, of 980 0 5] show ?thesis
    by (simp add: static_page_def tile_def)
qed

text \<open>
  The claim as stated fails in both variants. In BrowserHandler, when the screenshots come
  out 14990 pixels high, the remainder step scrolls to 14990 * 2 = 29980 and not to
  \<open>tile_height * tiles_captured\<close> = 15000 * 2. In methods.py the body height is forced
  to the stabilized height 31000, not to 31000 + 15000.
\<close>

lemma drifting_run_observed:
  "(case drifting_run of (r, wd') \<Rightarrow> (calls wd' ! 18, primary_captures (calls wd')))
   = (ExecuteScript (ScrollTo 0 29980), 2)"
  by (simp add: drifting_run_def BrowserHandler_defs example_defs run_defs Let_def
        primary_captures_def captures_def)

theorem remainder_capture_steps_counterexample:
  "primary_captures (calls (snd drifting_run)) = 2 \<and>
   calls (snd drifting_run) ! 18 = ExecuteScript (ScrollTo 0 29980) \<and>
   (15000::int) * 2 \<noteq> 29980 \<and>
   calls (snd (capture_remaining_page [tile 15000, tile 15000] 31000 1366 15000 0 20
                 (static_page 31000 15000 15000))) ! 0 = ExecuteScript (SetBodyHeight 31000) \<and>
   (31000::int) + 15000 \<noteq> 31000"
proof -
  have "calls (snd (capture_remaining_page [tile 15000, tile 15000] 31000 1366 15000 0 20
                 (static_page 31000 15000 15000))) ! 0 = ExecuteScript (SetBodyHeight 31000)"
    by (simp add: methods_defs example_defs run_defs Let_def)
  moreover obtain r wd' where e: "drifting_run = (r, wd')" by (cases drifting_run)
  ultimately show ?thesis using drifting_run_observed unfolding e by simp
qed

section \<open>The tile height\<close>

lemma BrowserHandler_first_resize:
  assumes "\<forall>k. \<not> raises wd k"
    and "BrowserHandler_get_max_height 0 5 wd = (Inr h, wd1)"
    and "15000 \<le> h"
  shows "hd (resizes (new_calls wd
               (snd (BrowserHandler_get_screenshot_using_cut_and_merger w d wd))))
           = (w, 15000 + number wd (length (calls wd1)) OuterMinusInner)"
proof -
  from BrowserHandler_tiled_run [OF assms(1) assms(2), of w d] assms(3)
  obtain G L R where
    run: "BrowserHandler_get_screenshot_using_cut_and_merger w d wd
             = (Inl TypeError,
                wd\<lparr>calls := calls wd @ G
                       @ [ExecuteScript OuterMinusInner,
                          SetWindowSize w (15000 + number wd (length (calls wd1)) OuterMinusInner)]
                       @ L @ R\<rparr>)"
    and G: "resizes G = []"
    by auto
  show ?thesis by (simp add: run G)
qed

lemma BrowserHandler_primary_captures:
  assumes rel: "\<forall>k. \<not> raises wd k"
    and h: "BrowserHandler_get_max_height 0 5 wd = (Inr h, wd1)"
    and big: "15000 \<le> h"
  shows "primary_captures (new_calls wd
               (snd (BrowserHandler_get_screenshot_using_cut_and_merger w d wd)))
           = nat (h div 15000)"
proof -
  from BrowserHandler_tiled_run [OF rel h, of w d] big
  obtain G L R where
    run: "BrowserHandler_get_screenshot_using_cut_and_merger w d wd
           = (Inl TypeError,
              wd\<lparr>calls := calls wd @ G
                     @ [ExecuteScript OuterMinusInner,
                        SetWindowSize w (15000 + number wd (length (calls wd1)) OuterMinusInner)]
                     @ L @ R\<rparr>)"
    and G: "captures G = 0" "\<forall>c \<in> set G. \<not> forces_body_height c"
    and L: "captures L = nat (h div 15000)" "\<forall>c \<in> set L. \<not> forces_body_height c"
    and R: "if h mod 15000 = 0 then R = []
            else \<exists>rest. R = ExecuteScript (SetBodyHeight (h + 15000)) # rest
                        \<and> captures rest = 1"
    by auto
  define A where "A = G @ [ExecuteScript OuterMinusInner,
                        SetWindowSize w (15000 + number wd (length (calls wd1)) OuterMinusInner)]
                      @ L"
  have A: "\<forall>c \<in> set A. \<not> forces_body_height c" "captures A = nat (h div 15000)"
    using G L by (auto simp: A_def captures_def)
  have R1: "R = [] \<or> forces_body_height (hd R)"
    using R by (auto split: if_splits)
  show ?thesis
    using primary_captures_split [OF A(1) R1] A(2) by (simp add: run A_def)
qed

text \<open>
  C8, amended. In the tiled path of BrowserHandler the tile height is the constant 15000
  and does not depend on the stabilized height: for any two pages on which the path runs
  (no driver call fails, heights of at least 15000), the window is first resized to 15000
  plus the chrome offset just read, and the number of primary captures is the page's
  height divided by 15000.
\<close>

theorem tile_height_constant:
  assumes "\<forall>k. \<not> raises wd_a k" and "\<forall>k. \<not> raises wd_b k"
    and "BrowserHandler_get_max_height 0 5 wd_a = (Inr height_a, wd_a1)"
    and "BrowserHandler_get_max_height 0 5 wd_b = (Inr height_b, wd_b1)"
    and "15000 \<le> height_a" and "15000 \<le> height_b"
  shows "hd (resizes (new_calls wd_a
               (snd (BrowserHandler_get_screenshot_using_cut_and_merger w_a d_a wd_a))))
           = (w_a, 15000 + number wd_a (length (calls wd_a1)) OuterMinusInner) \<and>
         hd (resizes (new_calls wd_b
               (snd (BrowserHandler_get_screenshot_using_cut_and_merger w_b d_b wd_b))))
           = (w_b, 15000 + number wd_b (length (calls wd_b1)) OuterMinusInner) \<and>
         primary_captures (new_calls wd_a
               (snd (BrowserHandler_get_screenshot_using_cut_and_merger w_a d_a wd_a)))
           = nat (height_a div 15000) \<and>
         primary_captures (new_calls wd_b
               (snd (BrowserHandler_get_screenshot_using_cut_and_merger w_b d_b wd_b)))
           = nat (height_b div 15000)"
  using BrowserHandler_first_resize [OF assms(1) assms(3) assms(5)]
    BrowserHandler_first_resize [OF assms(2) assms(4) assms(6)]
    BrowserHandler_primary_captures [OF assms(1) assms(3) assms(5)]
    BrowserHandler_primary_captures [OF assms(2) assms(4) assms(6)]
  by simp

theorem tile_height_constant_witness:
  "hd (resizes (calls (snd (BrowserHandler_get_screenshot_using_cut_and_merger 980 5
                             (static_page 31000 15000 15000))))) = (980, 15085) \<and>
   hd (resizes (calls (snd (BrowserHandler_get_screenshot_using_cut_and_merger 980 5
                             (static_page 47000 15000 15000))))) = (980, 15085) \<and>
   primary_captures (calls (snd (BrowserHandler_get_screenshot_using_cut_and_merger 980 5
                             (static_page 31000 15000 15000)))) = 2 \<and>
   primary_captures (calls (snd (BrowserHandler_get_screenshot_using_cut_and_merger 980 5
                             (static_page 47000 15000 15000)))) = 3"
proof -
  define wd_a where "wd_a = static_page 31000 15000 15000"
  define wd_b where "wd_b = static_page 47000 15000 15000"
  have h1: "\<forall>k. \<not> raises wd_a k" by (simp add: wd_a_def static_page_def)
  have h2: "\<forall>k. \<not> raises wd_b k" by (simp add: wd_b_def static_page_def)
  have "fst (BrowserHandler_get_max_height 0 5 wd_a) = Inr 31000"
    by (simp add: wd_a_def BrowserHandler_defs example_defs run_defs Let_def)
  then have h3: "BrowserHandler_get_max_height 0 5 wd_a
                   = (Inr 31000, snd (BrowserHandler_get_max_height 0 5 wd_a))"
    by (simp add: prod_eq_iff)
  have "fst (BrowserHandler_get_max_height 0 5 wd_b) = Inr 47000"
    by (simp add: wd_b_def BrowserHandler_defs example_defs run_defs Let_def)
  then have h4: "BrowserHandler_get_max_height 0 5 wd_b
                   = (Inr 47000, snd (BrowserHandler_get_max_height 0 5 wd_b))"
    by (simp add: prod_eq_iff)
  have h5: "(15000::int) \<le> 31000" and h6: "(15000::int) \<le> 47000" by simp_all
  have n: "number wd_a k OuterMinusInner = 85" "number wd_b k OuterMinusInner = 85"
    "calls wd_a = []" "calls wd_b = []" for k
    by (simp_all add: wd_a_def wd_b_def static_page_def)
  from tile_height_constant [OF h1 h2 h3 h4 h5 h6, of 980 5 980 5] show ?thesis
    by (simp add: n new_calls_def wd_a_def [symmetric] wd_b_def [symmetric])
qed

text \<open>
  The claim as stated fails in methods.py, whose tiled path resizes the window to the
  stabilized height itself and takes \<open>window.innerHeight\<close> as the tile height: pages of
  30000 and of 40000 pixels get windows of 30000 and of 40000 pixels, one primary capture
  each, and remainder scrolls to 29915 and to 39915, the heights of their tiles.
\<close>

lemma tall_page_run_observed:
  "map_option (\<lambda>(r, wd'). (calls wd' ! 15, calls wd' ! 26, primary_captures (calls wd')))
     (tall_page_run 30000)
   = Some (SetWindowSize 1366 30000, ExecuteScript (ScrollTo 0 29915), 1)"
  "map_option (\<lambda>(r, wd'). (calls wd' ! 15, calls wd' ! 26, primary_captures (calls wd')))
     (tall_page_run 40000)
   = Some (SetWindowSize 1366 40000, ExecuteScript (ScrollTo 0 39915), 1)"
  by (simp_all add: tall_page_run_def methods_defs example_defs run_defs Let_def
        primary_captures_def captures_def)

theorem tile_height_constant_counterexample:
  "tall_page_run 30000 \<noteq> None \<and> tall_page_run 40000 \<noteq> None \<and>
   calls (snd (the (tall_page_run 30000))) ! 15 = SetWindowSize 1366 30000 \<and>
   calls (snd (the (tall_page_run 40000))) ! 15 = SetWindowSize 1366 40000 \<and>
   calls (snd (the (tall_page_run 30000))) ! 26 = ExecuteScript (ScrollTo 0 29915) \<and>
   calls (snd (the (tall_page_run 40000))) ! 26 = ExecuteScript (ScrollTo 0 39915) \<and>
   primary_captures (calls (snd (the (tall_page_run 30000)))) = 1 \<and>
   primary_captures (calls (snd (the (tall_page_run 40000)))) = 1"
proof -
  from tall_page_run_observed(1) obtain a where
    a: "tall_page_run 30000 = Some a" "calls (snd a) ! 15 = SetWindowSize 1366 30000"
      "calls (snd a) ! 26 = ExecuteScript (ScrollTo 0 29915)"
      "primary_captures (calls (snd a)) = 1"
    by auto
  from tall_page_run_observed(2) obtain b where
    b: "tall_page_run 40000 = Some b" "calls (snd b) ! 15 = SetWindowSize 1366 40000"
      "calls (snd b) ! 26 = ExecuteScript (ScrollTo 0 39915)"
      "primary_captures (calls (snd b)) = 1"
    by auto
  show ?thesis using a(2-) b(2-) unfolding a(1) b(1) by simp
qed

section \<open>The single-shot path\<close>

lemma get_page_height_reliable:
  assumes "\<forall>k. \<not> raises wd k"
  shows "\<exists>v. get_page_height wd =
           (Inr v, wd\<lparr>calls := calls wd @
              [ExecuteScript BodyScrollHeight, ExecuteScript BodyClientHeight,
               ExecuteScript BodyOffsetHeight, ExecuteScript DocOffsetHeight,
               ExecuteScript DocClientHeight, ExecuteScript DocScrollHeight]\<rparr>)"
  using assms by (simp add: get_page_height_def reliable_simps)

lemma get_max_height_round_reliable:
  assumes "\<forall>k. \<not> raises wd k"
  shows "\<exists>p n cs. get_max_height_round w wd = (Inr (p, n), wd\<lparr>calls := calls wd @ cs\<rparr>)
           \<and> captures cs = 0 \<and> (\<forall>c \<in> set cs. \<not> forces_body_height c)"
proof -
  define six where "six = [ExecuteScript BodyScrollHeight, ExecuteScript BodyClientHeight,
               ExecuteScript BodyOffsetHeight, ExecuteScript DocOffsetHeight,
               ExecuteScript DocClientHeight, ExecuteScript DocScrollHeight]"
  have six: "captures six = 0" "\<forall>c \<in> set six. \<not> forces_body_height c"
    by (simp_all add: six_def captures_def)
  from get_page_height_reliable [OF assms]
  obtain p where p: "get_page_height wd = (Inr p, wd\<lparr>calls := calls wd @ six\<rparr>)"
    unfolding six_def by blast
  define mid where "mid = [SetWindowSize w p, ExecuteScript (ScrollTo 0 p), Sleep 20]"
  define wd2 where "wd2 = wd\<lparr>calls := calls wd @ six @ mid\<rparr>"
  have rel2: "\<forall>k. \<not> raises wd2 k" using assms by (simp add: wd2_def)
  from get_page_height_reliable [OF rel2]
  obtain n where n: "get_page_height wd2 = (Inr n, wd2\<lparr>calls := calls wd2 @ six\<rparr>)"
    unfolding six_def by blast
  have "get_max_height_round w wd = (Inr (p, n), wd\<lparr>calls := calls wd @ (six @ mid @ six)\<rparr>)"
    using assms n
    by (simp add: get_max_height_round_def io_bind_def [of get_page_height] p
          reliable_simps wd2_def mid_def)
  moreover have "captures (six @ mid @ six) = 0" using six by (simp add: mid_def captures_def)
  moreover have "\<forall>c \<in> set (six @ mid @ six). \<not> forces_body_height c"
    using six by (auto simp: mid_def)
  ultimately show ?thesis by blast
qed

lemma get_max_height_reliable:
  assumes "get_max_height w0 wd0 = Some res0"
  shows "(\<forall>k. \<not> raises wd0 k) \<longrightarrow>
         (\<exists>h cs. res0 = (Inr h, wd0\<lparr>calls := calls wd0 @ cs\<rparr>)
            \<and> captures cs = 0 \<and> (\<forall>c \<in> set cs. \<not> forces_body_height c))"
  apply (rule get_max_height.raw_induct
           [where P = "\<lambda>w wd res. (\<forall>k. \<not> raises wd k) \<longrightarrow>
              (\<exists>h cs. res = (Inr h, wd\<lparr>calls := calls wd @ cs\<rparr>)
                 \<and> captures cs = 0 \<and> (\<forall>c \<in> set cs. \<not> forces_body_height c))",
            OF _ assms])
  subgoal premises prems for f w wd res
  proof
    assume rel: "\<forall>k. \<not> raises wd k"
    from get_max_height_round_reliable [OF rel, of w]
    obtain p n cs where
      r: "get_max_height_round w wd = (Inr (p, n), wd\<lparr>calls := calls wd @ cs\<rparr>)"
      and cs: "captures cs = 0" "\<forall>c \<in> set cs. \<not> forces_body_height c"
      by blast
    show "\<exists>h cs. res = (Inr h, wd\<lparr>calls := calls wd @ cs\<rparr>)
            \<and> captures cs = 0 \<and> (\<forall>c \<in> set cs. \<not> forces_body_height c)"
    proof (cases "p = n")
      case True
      with prems(2) r cs show ?thesis by auto
    next
      case False
      with prems(2) r have "f w (wd\<lparr>calls := calls wd @ cs\<rparr>) = Some res" by simp
      from prems(1) [OF this] rel
      obtain h cs' where "res = (Inr h, wd\<lparr>calls := calls wd @ (cs @ cs')\<rparr>)"
        "captures cs' = 0" "\<forall>c \<in> set cs'. \<not> forces_body_height c"
        by auto
      moreover have "captures (cs @ cs') = 0" using cs \<open>captures cs' = 0\<close> by simp
      moreover have "\<forall>c \<in> set (cs @ cs'). \<not> forces_body_height c"
        using cs \<open>\<forall>c \<in> set cs'. \<not> forces_body_height c\<close> by auto
      ultimately show ?thesis by blast
    qed
  qed
  done

text \<open>
  C6, amended. For every full-page capture in which no driver call fails and the
  stabilized height is at most the threshold, \<open>get_screenshot\<close> makes exactly one capture call: main.py's
  returns that one screenshot, and BrowserHandler's (on its capture path proper, where
  \<open>crawl_ss_type\<close> equals \<open>sc_capture_type\<close>, as it does by default) makes exactly one
  as well.
\<close>

theorem single_shot_one_capture:
  assumes "\<forall>k. \<not> raises wd k"
    and "stabilized_height \<le> default_height"
  shows "(get_max_height df_wd wd = Some (Inr stabilized_height, wd1) \<longrightarrow>
           (\<exists>img wd'. get_screenshot True df_wd df_ht default_height screenshot_delay wd
                         = Some (Inr (Some (Png_screenshot img)), wd')
                     \<and> captures (new_calls wd wd') = 1)) \<and>
         (BrowserHandler_get_max_height df_ht screenshot_delay wd = (Inr stabilized_height, wd2) \<and>
          (case kwargs ''crawl_ss_type'' of
             None \<Rightarrow> (case kwargs ''sc_capture_type'' of None \<Rightarrow> 1 | Some v \<Rightarrow> v)
           | Some v \<Rightarrow> v)
            = (case kwargs ''sc_capture_type'' of None \<Rightarrow> 1 | Some v \<Rightarrow> v) \<longrightarrow>
           captures (new_calls wd
             (snd (BrowserHandler_get_screenshot getsizeof kwargs automation True df_wd df_ht
                     default_height maximum_length_image screenshot_delay wd))) = 1)"
proof (intro conjI impI)
  assume h: "get_max_height df_wd wd = Some (Inr stabilized_height, wd1)"
  from get_max_height_reliable [OF h] assms(1)
  obtain G where wd1: "wd1 = wd\<lparr>calls := calls wd @ G\<rparr>" and G: "captures G = 0"
    by auto
  have rel1: "\<forall>k. \<not> raises wd1 k" using assms(1) wd1 by simp
  show "\<exists>img wd'. get_screenshot True df_wd df_ht default_height screenshot_delay wd
                         = Some (Inr (Some (Png_screenshot img)), wd')
                     \<and> captures (new_calls wd wd') = 1"
    using assms(2) rel1 G
    by (simp add: get_screenshot_def get_screenshot_try_def h get_window_height_def
          reliable_simps wd1 captures_def)
next
  assume a: "BrowserHandler_get_max_height df_ht screenshot_delay wd = (Inr stabilized_height, wd2) \<and>
          (case kwargs ''crawl_ss_type'' of
             None \<Rightarrow> (case kwargs ''sc_capture_type'' of None \<Rightarrow> 1 | Some v \<Rightarrow> v)
           | Some v \<Rightarrow> v)
            = (case kwargs ''sc_capture_type'' of None \<Rightarrow> 1 | Some v \<Rightarrow> v)"
  from BrowserHandler_get_max_height_reliable [OF assms(1), of df_ht screenshot_delay] a
  obtain G where wd2: "wd2 = wd\<lparr>calls := calls wd @ G\<rparr>" and G: "captures G = 0"
    by auto
  have rel2: "\<forall>k. \<not> raises wd2 k" using assms(1) wd2 by simp
  define single where "single =
     io_bind (execute_script OuterMinusInner) (\<lambda>chrome.
     io_bind (set_window_size df_wd (stabilized_height + chrome)) (\<lambda>_.
     io_bind (execute_script (ScrollTo df_wd stabilized_height)) (\<lambda>_.
     io_bind (sleep screenshot_delay) (\<lambda>_.
     io_bind (execute_script (ScrollTo 0 0)) (\<lambda>_.
     io_bind (sleep screenshot_delay) (\<lambda>_.
     io_bind get_screenshot_as_png (\<lambda>png_ss.
     io_return (Png_screenshot png_ss))))))))"
  have t: "BrowserHandler_get_screenshot_try kwargs automation True df_wd df_ht default_height
             maximum_length_image screenshot_delay wd = single wd2"
    using a assms(2)
    by (simp add: BrowserHandler_get_screenshot_try_def single_def Let_def io_bind_def)
  have "\<exists>img cs. single wd2 = (Inr (Png_screenshot img), wd2\<lparr>calls := calls wd2 @ cs\<rparr>)
          \<and> captures cs = 1"
    using rel2 by (simp add: single_def reliable_simps captures_def)
  then obtain img cs where
    s: "single wd2 = (Inr (Png_screenshot img), wd\<lparr>calls := calls wd @ (G @ cs)\<rparr>)"
    and cs: "captures cs = 1"
    using wd2 by auto
  show "captures (new_calls wd
             (snd (BrowserHandler_get_screenshot getsizeof kwargs automation True df_wd df_ht
                     default_height maximum_length_image screenshot_delay wd))) = 1"
    using G cs by (simp add: BrowserHandler_get_screenshot_def t s)
qed

theorem single_shot_one_capture_witness:
  "(\<exists>img wd'. get_screenshot True 1366 900 15000 20 (static_page 9000 900 900)
                 = Some (Inr (Some (Png_screenshot img)), wd')
             \<and> captures (new_calls (static_page 9000 900 900) wd') = 1) \<and>
   captures (new_calls (static_page 9000 900 900)
     (snd (BrowserHandler_get_screenshot two_kilobytes Map.empty no_automation True 980 1000
             22000 600000 5 (static_page 9000 900 900)))) = 1"
proof -
  define wd where "wd = static_page 9000 900 900"
  have h1: "\<forall>k. \<not> raises wd k" by (simp add: wd_def static_page_def)
  have h2: "(9000::int) \<le> 15000" and h2': "(9000::int) \<le> 22000" by simp_all
  have "map_option fst (get_max_height 1366 wd) = Some (Inr 9000)"
    by (simp add: wd_def methods_defs example_defs run_defs Let_def)
  then have h3: "get_max_height 1366 wd = Some (Inr 9000, snd (the (get_max_height 1366 wd)))"
    by (auto simp: prod_eq_iff)
  have "fst (BrowserHandler_get_max_height 1000 5 wd) = Inr 9000"
    by (simp add: wd_def BrowserHandler_defs example_defs run_defs Let_def)
  then have h4: "BrowserHandler_get_max_height 1000 5 wd
                   = (Inr 9000, snd (BrowserHandler_get_max_height 1000 5 wd))"
    by (simp add: prod_eq_iff)
  have h5: "(case Map.empty ''crawl_ss_type'' of
             None \<Rightarrow> (case Map.empty ''sc_capture_type'' of None \<Rightarrow> 1 | Some v \<Rightarrow> v)
           | Some v \<Rightarrow> v)
            = (case Map.empty ''sc_capture_type'' of None \<Rightarrow> (1::int) | Some v \<Rightarrow> v)"
    by simp
  have a: "\<exists>img wd'. get_screenshot True 1366 900 15000 20 wd
                 = Some (Inr (Some (Png_screenshot img)), wd')
             \<and> captures (new_calls wd wd') = 1"
    using single_shot_one_capture [OF h1 h2, where df_wd = 1366 and df_ht = 900
        and screenshot_delay = 20] h3 by blast
  have b: "captures (new_calls wd
     (snd (BrowserHandler_get_screenshot two_kilobytes Map.empty no_automation True 980 1000
             22000 600000 5 wd))) = 1"
    using single_shot_one_capture [OF h1 h2', where df_ht = 1000 and screenshot_delay = 5
        and kwargs = Map.empty and getsizeof = two_kilobytes and automation = no_automation
        and df_wd = 980 and maximum_length_image = 600000] h4 h5 by blast
  show ?thesis using a b by (simp add: wd_def)
qed

text \<open>
  Without the condition on the driver the claim fails. On a page 9000 pixels high, below
  the threshold, a driver error in a call between the height probe and the capture ends
  the run: the probe has returned 9000, \<open>get_screenshot\<close> returns \<open>None\<close>, and no capture
  call was made. In BrowserHandler the failing call is the chrome-offset script, in
  main.py the resize of the window.
\<close>

theorem single_shot_one_capture_counterexample:
  "fst (BrowserHandler_get_max_height 1000 5 (failing_at 6 (static_page 9000 900 900)))
     = Inr 9000 \<and>
   (9000::int) \<le> 22000 \<and>
   fst failed_offset_capture = Inr None \<and>
   captures (calls (snd failed_offset_capture)) = 0 \<and>
   map_option fst (get_max_height 1366 (failing_at 16 (static_page 9000 900 900)))
     = Some (Inr 9000) \<and>
   (9000::int) \<le> 15000 \<and>
   map_option fst failed_resize_capture = Some (Inr None) \<and>
   map_option (\<lambda>(r, wd'). captures (calls wd')) failed_resize_capture = Some 0"
  by (simp add: failed_offset_capture_def failed_resize_capture_def BrowserHandler_defs
        methods_defs example_defs run_defs Let_def captures_def)

section \<open>The tile count\<close>

lemma BrowserHandler_capture_counts:
  assumes rel: "\<forall>k. \<not> raises wd k"
    and h: "BrowserHandler_get_max_height 0 5 wd = (Inr h, wd1)"
    and big: "15000 \<le> h"
  shows "primary_captures (new_calls wd
           (snd (BrowserHandler_get_screenshot_using_cut_and_merger w d wd))) = nat (h div 15000) \<and>
         remainder_captures (new_calls wd
           (snd (BrowserHandler_get_screenshot_using_cut_and_merger w d wd)))
           = (if h mod 15000 = 0 then 0 else 1)"
proof -
  from BrowserHandler_tiled_run [OF rel h, of w d] big
  obtain G L R where
    run: "BrowserHandler_get_screenshot_using_cut_and_merger w d wd
             = (Inl TypeError,
                wd\<lparr>calls := calls wd @ G
                       @ [ExecuteScript OuterMinusInner,
                          SetWindowSize w (15000 + number wd (length (calls wd1)) OuterMinusInner)]
                       @ L @ R\<rparr>)"
    and G: "captures G = 0" "\<forall>c \<in> set G. \<not> forces_body_height c"
    and L: "captures L = nat (h div 15000)" "\<forall>c \<in> set L. \<not> forces_body_height c"
    and R: "if h mod 15000 = 0 then R = []
            else \<exists>rest. R = ExecuteScript (SetBodyHeight (h + 15000)) # rest
                        \<and> captures rest = 1"
    by auto
  define A where "A = G @ [ExecuteScript OuterMinusInner,
                          SetWindowSize w (15000 + number wd (length (calls wd1)) OuterMinusInner)]
                        @ L"
  have new: "new_calls wd (snd (BrowserHandler_get_screenshot_using_cut_and_merger w d wd))
               = A @ R"
    using run by (simp add: A_def)
  have A: "\<forall>c \<in> set A. \<not> forces_body_height c" "captures A = nat (h div 15000)"
    using G L by (auto simp: A_def captures_def)
  have R1: "R = [] \<or> forces_body_height (hd R)"
    using R by (auto split: if_splits)
  have R2: "captures R = (if h mod 15000 = 0 then 0 else 1)"
    using R by (auto split: if_splits simp: captures_def)
  show ?thesis
    using primary_captures_split [OF A(1) R1] remainder_captures_split [OF A(1) R1] A(2) R2 new
    by simp
qed

lemma capture_remaining_page_none:
  assumes "viewport \<noteq> 0" "total_height mod viewport = 0"
  shows "capture_remaining_page ss_chunks total_height win_width viewport scroll_x d wd
           = (Inr None, wd)"
  using assms by (simp add: capture_remaining_page_def io_return_def)

lemma methods_tiled_run:
  assumes rel: "\<forall>k. \<not> raises wd k"
    and h: "get_max_height w wd = Some (Inr h, wd1)"
    and v: "v = number wd (length (calls wd1) + 3) InnerHeight"
    and pos: "0 < v" and le: "v \<le> h"
  shows "\<exists>G L R cv.
           get_screenshot_using_cut_and_merger w d wd
             = Some (Inr (Png_canvas cv),
                wd\<lparr>calls := calls wd @ G
                       @ [SetWindowSize w h, ExecuteScript OuterHeight, Sleep d,
                          ExecuteScript InnerHeight]
                       @ L @ R\<rparr>)
           \<and> captures G = 0 \<and> (\<forall>c \<in> set G. \<not> forces_body_height c)
           \<and> captures L = nat (h div v) \<and> (\<forall>c \<in> set L. \<not> forces_body_height c)
           \<and> (if h mod v = 0 then R = []
               else \<exists>rest. R = ExecuteScript (SetBodyHeight h) # rest \<and> captures rest = 1)
           \<and> length (cv_pastes cv) = nat (h div v) + (if h mod v = 0 then 0 else 1)"
proof -
  from get_max_height_reliable [OF h] rel
  obtain G where wd1: "wd1 = wd\<lparr>calls := calls wd @ G\<rparr>"
    and G: "captures G = 0" "\<forall>c \<in> set G. \<not> forces_body_height c"
    by auto
  define P where "P = [SetWindowSize w h, ExecuteScript OuterHeight, Sleep d,
                       ExecuteScript InnerHeight]"
  define wd3 where "wd3 = wd1\<lparr>calls := calls wd1 @ P\<rparr>"
  have rel1: "\<forall>k. \<not> raises wd1 k" using rel wd1 by simp
  have rel3: "\<forall>k. \<not> raises wd3 k" using rel1 wd3_def by simp
  have v1: "number wd1 (length (calls wd1) + 3) InnerHeight = v" using v wd1 by simp
  from tile_loop_reliable [OF rel3, of 0 d "h div v" "[]" 0 0]
  obtain slices' offset' L where
    l: "tile_loop 0 d (h div v) [] 0 0 wd3
          = (Inr (slices', offset'), wd3\<lparr>calls := calls wd3 @ L\<rparr>)"
    and len: "length slices' = nat (h div v)"
    and L: "captures L = nat (h div v)" "\<forall>x \<in> set L. \<not> forces_body_height x"
    by auto
  define wd4 where "wd4 = wd3\<lparr>calls := calls wd3 @ L\<rparr>"
  have rel4: "\<forall>k. \<not> raises wd4 k" using rel3 wd4_def by simp
  have "0 < h div v" using pos le by (simp add: pos_imp_zdiv_pos_iff)
  then have ne: "slices' \<noteq> []" using len by auto
  have prologue: "io_bind (set_window_size w h) (\<lambda>_.
         io_bind (execute_script OuterHeight) (\<lambda>_.
         io_bind (sleep d) (\<lambda>_.
         io_bind (execute_script InnerHeight) f))) wd1 = f v wd3"
    for f :: "int \<Rightarrow> png_data io"
    using rel1 v1 by (simp add: reliable_simps wd3_def P_def eval_nat_numeral)
  have wd4: "wd4\<lparr>calls := calls wd4 @ R\<rparr> = wd\<lparr>calls := calls wd @ G @ P @ L @ R\<rparr>" for R
    by (simp add: wd4_def wd3_def wd1)
  have unfold: "get_screenshot_using_cut_and_merger w d wd
      = Some (io_bind (capture_remaining_page slices' h w v 0 d) (\<lambda>last_image.
               lift (get_combined_screenshot
                       (case last_image of None \<Rightarrow> slices' | Some img \<Rightarrow> slices' @ [img]) [w]))
              wd4)"
    unfolding get_screenshot_using_cut_and_merger_def Let_def io_bind_partial_def
    apply (simp only: h option.case prod.case sum.case)
    apply (subst prologue)
    using pos apply (simp add: io_bind_def l wd4_def [symmetric])
    done
  show ?thesis
  proof (cases "h mod v = 0")
    case True
    have c: "get_combined_screenshot slices' [w] = Inr (Png_canvas
       \<lparr>cv_mode = im_mode (hd slices'),
        cv_size = (w, sum_list (map im_height slices') + 150),
        cv_pastes = map (\<lambda>i. (slices' ! i, 0, sum_list (map im_height (take i slices'))))
                      [0..<length slices']\<rparr>)"
      using ne by (rule get_combined_screenshot_nonempty)
    have run: "get_screenshot_using_cut_and_merger w d wd
        = Some (Inr (Png_canvas
       \<lparr>cv_mode = im_mode (hd slices'),
        cv_size = (w, sum_list (map im_height slices') + 150),
        cv_pastes = map (\<lambda>i. (slices' ! i, 0, sum_list (map im_height (take i slices'))))
                      [0..<length slices']\<rparr>), wd\<lparr>calls := calls wd @ G @ P @ L @ []\<rparr>)"
      using pos True wd4 [of "[]"]
      by (simp add: unfold io_bind_def capture_remaining_page_none lift_def c del: upt_Suc)
    have Rp: "if h mod v = 0 then ([]::call list) = []
               else \<exists>rest. ([]::call list) = ExecuteScript (SetBodyHeight h) # rest
                           \<and> captures rest = 1"
      using True by simp
    have n: "length (cv_pastes \<lparr>cv_mode = im_mode (hd slices'),
        cv_size = (w, sum_list (map im_height slices') + 150),
        cv_pastes = map (\<lambda>i. (slices' ! i, 0, sum_list (map im_height (take i slices'))))
                      [0..<length slices']\<rparr>) = nat (h div v) + (if h mod v = 0 then 0 else 1)"
      using True len by simp
    show ?thesis using run G L Rp n unfolding P_def by blast
  next
    case False
    define R where "R = [ExecuteScript (SetBodyHeight h),
             ExecuteScript OuterMinusInner,
             SetWindowSize w (h mod v + number wd4 (length (calls wd4) + 1) OuterMinusInner),
             Sleep d,
             ExecuteScript (ScrollTo 0 (im_height (hd slices') * int (length slices'))),
             Sleep d,
             GetScreenshotAsPng]"
    define img where "img = png wd4 (length (calls wd4) + 6)"
    define slices2 where "slices2 = slices' @ [img]"
    have rem: "capture_remaining_page slices' h w v 0 d wd4
        = (Inr (Some img), wd4\<lparr>calls := calls wd4 @ R\<rparr>)"
      using capture_remaining_page_reliable [OF rel4 ne _ False, of w 0 d] pos
      by (simp add: R_def img_def)
    have ne2: "slices2 \<noteq> []" by (simp add: slices2_def)
    have c: "get_combined_screenshot slices2 [w] = Inr (Png_canvas
       \<lparr>cv_mode = im_mode (hd slices2),
        cv_size = (w, sum_list (map im_height slices2) + 150),
        cv_pastes = map (\<lambda>i. (slices2 ! i, 0, sum_list (map im_height (take i slices2))))
                      [0..<length slices2]\<rparr>)"
      using ne2 by (rule get_combined_screenshot_nonempty)
    have run: "get_screenshot_using_cut_and_merger w d wd
        = Some (Inr (Png_canvas
       \<lparr>cv_mode = im_mode (hd slices2),
        cv_size = (w, sum_list (map im_height slices2) + 150),
        cv_pastes = map (\<lambda>i. (slices2 ! i, 0, sum_list (map im_height (take i slices2))))
                      [0..<length slices2]\<rparr>), wd\<lparr>calls := calls wd @ G @ P @ L @ R\<rparr>)"
      using wd4 [of R]
      by (simp add: unfold io_bind_def rem lift_def c slices2_def [symmetric] del: upt_Suc)
    have "\<exists>rest. R = ExecuteScript (SetBodyHeight h) # rest \<and> captures rest = 1"
      by (simp add: R_def captures_def)
    then have Rp: "if h mod v = 0 then R = []
               else \<exists>rest. R = ExecuteScript (SetBodyHeight h) # rest \<and> captures rest = 1"
      using False by simp
    have n: "length (cv_pastes \<lparr>cv_mode = im_mode (hd slices2),
        cv_size = (w, sum_list (map im_height slices2) + 150),
        cv_pastes = map (\<lambda>i. (slices2 ! i, 0, sum_list (map im_height (take i slices2))))
                      [0..<length slices2]\<rparr>) = nat (h div v) + (if h mod v = 0 then 0 else 1)"
      using False len by (simp add: slices2_def)
    show ?thesis using run G L Rp n unfolding P_def by blast
  qed
qed

lemma methods_capture_counts:
  assumes rel: "\<forall>k. \<not> raises wd k"
    and h: "get_max_height w wd = Some (Inr h, wd1)"
    and v: "v = number wd (length (calls wd1) + 3) InnerHeight"
    and pos: "0 < v" and le: "v \<le> h"
  shows "\<exists>cv wd'. get_screenshot_using_cut_and_merger w d wd = Some (Inr (Png_canvas cv), wd') \<and>
           primary_captures (new_calls wd wd') = nat (h div v) \<and>
           remainder_captures (new_calls wd wd') = (if h mod v = 0 then 0 else 1) \<and>
           length (cv_pastes cv) = nat (h div v) + (if h mod v = 0 then 0 else 1)"
proof -
  from methods_tiled_run [OF rel h v pos le, of d]
  obtain G L R cv where
    run: "get_screenshot_using_cut_and_merger w d wd
             = Some (Inr (Png_canvas cv),
                wd\<lparr>calls := calls wd @ G
                       @ [SetWindowSize w h, ExecuteScript OuterHeight, Sleep d,
                          ExecuteScript InnerHeight]
                       @ L @ R\<rparr>)"
    and G: "captures G = 0" "\<forall>c \<in> set G. \<not> forces_body_height c"
    and L: "captures L = nat (h div v)" "\<forall>c \<in> set L. \<not> forces_body_height c"
    and R: "if h mod v = 0 then R = []
            else \<exists>rest. R = ExecuteScript (SetBodyHeight h) # rest \<and> captures rest = 1"
    and n: "length (cv_pastes cv) = nat (h div v) + (if h mod v = 0 then 0 else 1)"
    by blast
  define A where "A = G @ [SetWindowSize w h, ExecuteScript OuterHeight, Sleep d,
                          ExecuteScript InnerHeight] @ L"
  define wd' where "wd' = wd\<lparr>calls := calls wd @ A @ R\<rparr>"
  have run': "get_screenshot_using_cut_and_merger w d wd = Some (Inr (Png_canvas cv), wd')"
    using run by (simp add: wd'_def A_def)
  have new: "new_calls wd wd' = A @ R" by (simp add: wd'_def)
  have A: "\<forall>c \<in> set A. \<not> forces_body_height c" "captures A = nat (h div v)"
    using G L by (auto simp: A_def captures_def)
  have R1: "R = [] \<or> forces_body_height (hd R)"
    using R by (auto split: if_splits)
  have R2: "captures R = (if h mod v = 0 then 0 else 1)"
    using R by (auto split: if_splits simp: captures_def)
  have "primary_captures (new_calls wd wd') = nat (h div v)"
    using primary_captures_split [OF A(1) R1] A(2) new by simp
  moreover have "remainder_captures (new_calls wd wd') = (if h mod v = 0 then 0 else 1)"
    using remainder_captures_split [OF A(1) R1] R2 new by simp
  ultimately show ?thesis using run' n by blast
qed

text \<open>
  The counts of the tiled path when at least one tile fits. When no driver call fails and
  the stabilized height the tiled path measures is at least the tile height, the tiled
  path makes exactly \<open>floor (stabilized_height / tile_height)\<close> primary capture calls,
  then exactly one remainder capture when \<open>stabilized_height mod tile_height\<close> is not
  zero and none when it is zero. The tile height is 15000 in BrowserHandler; in
  methods.py it is the viewport height read back from the browser, taken to be positive,
  and the composite returned there holds exactly as many tiles as captures were made.
\<close>

lemma tiled_capture_counts:
  assumes "\<forall>k. \<not> raises wd k"
  shows "(BrowserHandler_get_max_height 0 5 wd = (Inr stabilized_height, wd1) \<and>
          15000 \<le> stabilized_height \<longrightarrow>
            primary_captures (new_calls wd
              (snd (BrowserHandler_get_screenshot_using_cut_and_merger max_width screenshot_delay wd)))
              = nat (stabilized_height div 15000) \<and>
            remainder_captures (new_calls wd
              (snd (BrowserHandler_get_screenshot_using_cut_and_merger max_width screenshot_delay wd)))
              = (if stabilized_height mod 15000 = 0 then 0 else 1)) \<and>
         (get_max_height max_width wd = Some (Inr stabilized_height, wd2) \<and>
          tile_height = number wd (length (calls wd2) + 3) InnerHeight \<and>
          0 < tile_height \<and> tile_height \<le> stabilized_height \<longrightarrow>
            (\<exists>cv wd'. get_screenshot_using_cut_and_merger max_width screenshot_delay wd
                          = Some (Inr (Png_canvas cv), wd') \<and>
               primary_captures (new_calls wd wd') = nat (stabilized_height div tile_height) \<and>
               remainder_captures (new_calls wd wd')
                 = (if stabilized_height mod tile_height = 0 then 0 else 1) \<and>
               length (cv_pastes cv)
                 = nat (stabilized_height div tile_height)
                   + (if stabilized_height mod tile_height = 0 then 0 else 1)))"
  using BrowserHandler_capture_counts [OF assms, of stabilized_height wd1 max_width screenshot_delay]
    methods_capture_counts [OF assms, of max_width stabilized_height wd2 tile_height screenshot_delay]
  by blast

lemma tiled_capture_counts_example:
  "primary_captures
     (new_calls (static_page 31000 15000 15000)
        (snd (BrowserHandler_get_screenshot_using_cut_and_merger 980 5
                (static_page 31000 15000 15000)))) = 2 \<and>
   remainder_captures
     (new_calls (static_page 31000 15000 15000)
        (snd (BrowserHandler_get_screenshot_using_cut_and_merger 980 5
                (static_page 31000 15000 15000)))) = 1 \<and>
   (\<exists>cv wd'. get_screenshot_using_cut_and_merger 980 5 (static_page 31000 15000 15000)
                 = Some (Inr (Png_canvas cv), wd') \<and>
      primary_captures (new_calls (static_page 31000 15000 15000) wd') = 2 \<and>
      remainder_captures (new_calls (static_page 31000 15000 15000) wd') = 1 \<and>
      length (cv_pastes cv) = 3)"
proof -
  define wd where "wd = static_page 31000 15000 15000"
  have h1: "\<forall>k. \<not> raises wd k"
    by (simp add: wd_def static_page_def)
  have "fst (BrowserHandler_get_max_height 0 5 wd) = Inr 31000"
    by (simp add: wd_def BrowserHandler_defs example_defs run_defs Let_def)
  then have h2: "BrowserHandler_get_max_height 0 5 wd
                   = (Inr 31000, snd (BrowserHandler_get_max_height 0 5 wd))"
    by (simp add: prod_eq_iff)
  have "map_option fst (get_max_height 980 wd) = Some (Inr 31000)"
    by (simp add: wd_def methods_defs example_defs run_defs Let_def)
  then have h3: "get_max_height 980 wd = Some (Inr 31000, snd (the (get_max_height 980 wd)))"
    by (auto simp: prod_eq_iff)
  have h4: "(15000::int) = number wd (length (calls (snd (the (get_max_height 980 wd)))) + 3)
                             InnerHeight"
    by (simp add: wd_def static_page_def)
  have h5: "(15000::int) \<le> 31000" "(0::int) < 15000" by simp_all
  note t = tiled_capture_counts [OF h1, of 31000 "snd (BrowserHandler_get_max_height 0 5 wd)"
         980 5 "snd (the (get_max_height 980 wd))" 15000]
  note a = t [THEN conjunct1, rule_format, OF conjI [OF h2 h5(1)]]
  note b = t [THEN conjunct2, rule_format, OF conjI [OF h3 conjI [OF h4 conjI [OF h5(2) h5(1)]]]]
  show ?thesis
    using a b unfolding wd_def by simp
qed

text \<open>
  C2. The tiled path is to make \<open>floor (stabilized_height / tile_height)\<close> primary
  captures and exactly one remainder capture when the remainder is not zero. The code
  does not when the height it measures is below the tile height of 15000. A page 200
  pixels high captured with the threshold 100 takes the tiled path, since 200 exceeds
  100; no tile fits, the remainder 200 is not zero, and the remainder step forces the
  body height and then raises \<open>IndexError\<close> at \<open>ss_chunks[0]\<close>, the tile list being
  empty: no capture call is made, where the claim has one, and \<open>get_screenshot\<close> returns
  \<open>None\<close>. The same happens with the default threshold 22000 on a page that the probe of
  \<open>get_screenshot\<close> reads at 31000 and the probe of the tiled path, made afterwards, at
  200.
\<close>

theorem remainder_capture_index_error:
  "fst (BrowserHandler_get_max_height 1000 5 (static_page 200 15000 15000)) = Inr 200 \<and>
   (100::int) < 200 \<and> (200::int) mod 15000 \<noteq> 0 \<and>
   fst (BrowserHandler_get_screenshot_using_cut_and_merger 980 5
          (snd (BrowserHandler_get_max_height 1000 5 (static_page 200 15000 15000))))
     = Inl IndexError \<and>
   last (calls (snd short_page_capture)) = ExecuteScript (SetBodyHeight 15200) \<and>
   remainder_captures (calls (snd short_page_capture)) = 0 \<and>
   captures (calls (snd short_page_capture)) = 0 \<and>
   fst short_page_capture = Inr None \<and>
   fst (BrowserHandler_get_max_height 1000 5 shrinking_page) = Inr 31000 \<and>
   (22000::int) < 31000 \<and>
   fst (BrowserHandler_get_max_height 0 5
          (snd (BrowserHandler_get_max_height 1000 5 shrinking_page))) = Inr 200 \<and>
   fst (BrowserHandler_get_screenshot_using_cut_and_merger 980 5
          (snd (BrowserHandler_get_max_height 1000 5 shrinking_page)))
     = Inl IndexError \<and>
   remainder_captures (calls (snd shrinking_page_capture)) = 0 \<and>
   captures (calls (snd shrinking_page_capture)) = 0 \<and>
   fst shrinking_page_capture = Inr None"
  by (simp add: short_page_capture_def shrinking_page_capture_def shrinking_page_def
        BrowserHandler_defs example_defs run_defs Let_def remainder_captures_def captures_def)

end
